theory Spec2Isabelle
  imports
    Complex_Main
    "HOL-Library.Multiset"
    "HOL-Library.AList"
    "HOL-Library.Char_ord"
    "HOL-Library.List_Lexorder"
begin

section \<open>SharkScope: the event aggregation and hit-testing core\<close>

text \<open>
  A shallow embedding of the front end's state handling: the message handler of the
  capture socket and the periodic flush (\<^verbatim>\<open>App.jsx\<close>), the two arc-group
  aggregations (\<^verbatim>\<open>App.jsx\<close>), the selection handlers, the planar hit test
  (\<^verbatim>\<open>WorldMap\<close>) and the spherical curve builder (\<^verbatim>\<open>Globe.jsx\<close>).

  Conventions. A JavaScript number that counts something (bytes, packets, milliseconds
  of \<^verbatim>\<open>Date.now()\<close>) is an \<open>int\<close>; a coordinate or a pixel position is a
  \<open>real\<close>. Rounding of IEEE doubles, \<^verbatim>\<open>NaN\<close> and the infinities are outside the
  number types; where the source can produce them (a missing coordinate, a division by
  zero) the model has an \<open>option\<close> whose \<open>None\<close> stands for the value that is not a
  finite number. A field that may be \<^verbatim>\<open>null\<close> or \<^verbatim>\<open>undefined\<close> is an
  \<open>option\<close>. React state setters with an updater function run in the order they were
  called, each on the result of the one before, so a handler is a function from state to
  state. \<^verbatim>\<open>Date.now()\<close> and \<^verbatim>\<open>Math.random()\<close> are inputs of the handler
  that reads them.
\<close>

subsection \<open>Constants\<close>

definition MAX_CONNECTIONS :: nat where
  "MAX_CONNECTIONS = 1000"

definition MAX_PACKET_EVENTS :: nat where
  "MAX_PACKET_EVENTS = 300"

definition BATCH_INTERVAL_MS :: int where
  "BATCH_INTERVAL_MS = 50"

definition PACKET_EVENT_TTL_MS :: int where
  "PACKET_EVENT_TTL_MS = 2000"

subsection \<open>Data\<close>

text \<open>
  A coordinate as the JSON of a message delivers it: a number, \<^verbatim>\<open>null\<close>, or no
  such key at all (\<^verbatim>\<open>undefined\<close>).
\<close>

datatype coord = Val real | Null | Undefined

text \<open>\<^verbatim>\<open>x == null\<close>: true of \<^verbatim>\<open>null\<close> and of \<^verbatim>\<open>undefined\<close>.\<close>

definition nullish :: "coord \<Rightarrow> bool" where
  "nullish x = (case x of Val v \<Rightarrow> False | Null \<Rightarrow> True | Undefined \<Rightarrow> True)"

text \<open>
  A coordinate in arithmetic: \<^verbatim>\<open>null\<close> counts as \<open>0\<close>, and \<^verbatim>\<open>undefined\<close>
  gives \<^verbatim>\<open>NaN\<close>, which is \<open>None\<close> here.
\<close>

definition toNumber :: "coord \<Rightarrow> real option" where
  "toNumber x = (case x of Val v \<Rightarrow> Some v | Null \<Rightarrow> Some 0 | Undefined \<Rightarrow> None)"

record geo =
  lat :: coord
  lon :: coord
  pending :: bool
  unknown :: bool

record connection =
  id_c :: string
  src_ip :: string
  dst_ip :: string
  src_port :: "int option"
  dst_port :: "int option"
  src_geo :: "geo option"
  dst_geo :: "geo option"
  protocol :: "string option"
  process :: "string option"
  pid :: "int option"
  bytes :: int
  packets :: int
  timestamp :: "real option"
  lastActive :: int

text \<open>The fields of a message of type \<^verbatim>\<open>packet\<close>, as the handler reads them.\<close>

record packet =
  src_ip_p :: string
  dst_ip_p :: string
  src_port_p :: "int option"
  dst_port_p :: "int option"
  src_geo_p :: "geo option"
  dst_geo_p :: "geo option"
  protocol_p :: "string option"
  process_p :: "string option"
  pid_p :: "int option"
  length_p :: "int option"
  new_flow :: bool
  timestamp_p :: "real option"

record packet_event =
  id_e :: string
  connKey :: string
  src_ip_e :: string
  dst_ip_e :: string
  src_geo_e :: "geo option"
  dst_geo_e :: "geo option"
  timestamp_e :: int
  size_e :: int

record stats =
  packets_s :: int
  flows :: int
  bytes_s :: int

text \<open>One coalesced entry of \<^verbatim>\<open>pendingConnectionUpdatesRef\<close>.\<close>

record update =
  bytes_u :: int
  packets_u :: int
  lastActive_u :: int

record recording =
  filename :: "string option"
  file_size :: "real option"
  duration :: "real option"
  download_url :: "string option"

text \<open>
  The component's state: the React state that the properties below are about, and the
  four batching refs. \<^verbatim>\<open>pendingConnectionUpdatesRef\<close> is a JavaScript \<^verbatim>\<open>Map\<close>, which keeps
  its keys in insertion order: an association list with one entry per key.
\<close>

record app_state =
  connections :: "connection list"
  packetEvents :: "packet_event list"
  stats :: stats
  selectedConnectionId :: "string option"
  selectedArcGroupKey :: "string option"
  capturing :: bool
  isRecording :: bool
  lastRecording :: "recording option"
  pendingPacketEvents :: "packet_event list"
  pendingNewConnections :: "connection list"
  pendingConnectionUpdates :: "(string \<times> update) list"
  pendingStats :: stats

definition zeroStats :: stats where
  "zeroStats = \<lparr>packets_s = 0, flows = 0, bytes_s = 0\<rparr>"

text \<open>The state after mount: every \<^verbatim>\<open>useState\<close> and \<^verbatim>\<open>useRef\<close> at its initial value.\<close>

definition initState :: app_state where
  "initState =
     \<lparr>connections = [], packetEvents = [], stats = zeroStats,
      selectedConnectionId = None, selectedArcGroupKey = None,
      capturing = False, isRecording = False, lastRecording = None,
      pendingPacketEvents = [], pendingNewConnections = [],
      pendingConnectionUpdates = [], pendingStats = zeroStats\<rparr>"

subsection \<open>Strings\<close>

text \<open>Decimal rendering of an integer, as a template literal renders a number.\<close>

fun natToString :: "nat \<Rightarrow> string" where
  "natToString n =
     (if n < 10 then [''0123456789'' ! n]
      else natToString (n div 10) @ [''0123456789'' ! (n mod 10)])"

declare natToString.simps [simp del]

definition intToString :: "int \<Rightarrow> string" where
  "intToString i = (if i < 0 then ''-'' @ natToString (nat (- i)) else natToString (nat i))"

text \<open>
  \<^verbatim>\<open>[a, b].sort()\<close>: the default comparison orders strings by their code units, and
  the sort keeps two equal elements in place.
\<close>

definition sortPair :: "string \<Rightarrow> string \<Rightarrow> string list" where
  "sortPair a b = (if b < a then [b, a] else [a, b])"

text \<open>\<^verbatim>\<open>xs.join('-')\<close>\<close>

fun joinDash :: "string list \<Rightarrow> string" where
  "joinDash [] = []"
| "joinDash [x] = x"
| "joinDash (x # y # ys) = x @ ''-'' @ joinDash (y # ys)"

text \<open>The unordered pairing key \<^verbatim>\<open>[src_ip, dst_ip].sort().join('-')\<close>.\<close>

definition pairKey :: "string \<Rightarrow> string \<Rightarrow> string" where
  "pairKey a b = joinDash (sortPair a b)"

definition connPairKey :: "connection \<Rightarrow> string" where
  "connPairKey conn = pairKey (src_ip conn) (dst_ip conn)"

subsection \<open>The packet branch of the message handler\<close>

text \<open>\<^verbatim>\<open>data.length || 0\<close>\<close>

definition lengthOr0 :: "packet \<Rightarrow> int" where
  "lengthOr0 d = (case length_p d of None \<Rightarrow> 0 | Some n \<Rightarrow> n)"

text \<open>\<^verbatim>\<open>data.src_geo || data.dst_geo\<close>\<close>

definition hasGeo :: "packet \<Rightarrow> bool" where
  "hasGeo d = (src_geo_p d \<noteq> None \<or> dst_geo_p d \<noteq> None)"

definition newPacketEvent :: "int \<Rightarrow> string \<Rightarrow> packet \<Rightarrow> packet_event" where
  "newPacketEvent now rnd d =
     (let k = pairKey (src_ip_p d) (dst_ip_p d) in
      \<lparr>id_e = k @ ''-'' @ intToString now @ ''-'' @ rnd,
       connKey = k,
       src_ip_e = src_ip_p d, dst_ip_e = dst_ip_p d,
       src_geo_e = src_geo_p d, dst_geo_e = dst_geo_p d,
       timestamp_e = now, size_e = lengthOr0 d\<rparr>)"

definition newConnection :: "int \<Rightarrow> packet \<Rightarrow> connection" where
  "newConnection now d =
     \<lparr>id_c = src_ip_p d @ ''-'' @ dst_ip_p d @ ''-'' @ intToString now,
      src_ip = src_ip_p d, dst_ip = dst_ip_p d,
      src_port = src_port_p d, dst_port = dst_port_p d,
      src_geo = src_geo_p d, dst_geo = dst_geo_p d,
      protocol = protocol_p d, process = process_p d, pid = pid_p d,
      bytes = lengthOr0 d, packets = 1,
      timestamp = timestamp_p d, lastActive = now\<rparr>"

text \<open>
  The \<^verbatim>\<open>else if\<close> arm: \<^verbatim>\<open>get(key)\<close>, then either the entry found is changed in
  place or a new entry is set.
\<close>

definition bumpUpdate :: "string \<Rightarrow> int \<Rightarrow> int \<Rightarrow> (string \<times> update) list \<Rightarrow> (string \<times> update) list" where
  "bumpUpdate k len now m =
     (case map_of m k of
        Some existing \<Rightarrow>
          AList.update k
            \<lparr>bytes_u = bytes_u existing + len, packets_u = packets_u existing + 1,
             lastActive_u = now\<rparr> m
      | None \<Rightarrow>
          AList.update k \<lparr>bytes_u = len, packets_u = 1, lastActive_u = now\<rparr> m)"

text \<open>
  \<^verbatim>\<open>if (data.type === 'packet') { ... }\<close> of \<^verbatim>\<open>ws.onmessage\<close>; \<open>now\<close> is what
  \<^verbatim>\<open>Date.now()\<close> returns during the call and \<open>rnd\<close> the rendering of
  \<^verbatim>\<open>Math.random()\<close>.
\<close>

definition handlePacket :: "int \<Rightarrow> string \<Rightarrow> packet \<Rightarrow> app_state \<Rightarrow> app_state" where
  "handlePacket now rnd d s =
     (let ps = pendingStats s;
          s1 = s\<lparr>pendingStats :=
                   \<lparr>packets_s = packets_s ps + 1,
                    flows = flows ps + (if new_flow d then 1 else 0),
                    bytes_s = bytes_s ps + lengthOr0 d\<rparr>\<rparr>;
          s2 = (if hasGeo d
                then s1\<lparr>pendingPacketEvents := pendingPacketEvents s1 @ [newPacketEvent now rnd d]\<rparr>
                else s1)
      in if new_flow d \<and> hasGeo d
         then s2\<lparr>pendingNewConnections := pendingNewConnections s2 @ [newConnection now d]\<rparr>
         else if hasGeo d
         then s2\<lparr>pendingConnectionUpdates :=
                   bumpUpdate (pairKey (src_ip_p d) (dst_ip_p d)) (lengthOr0 d) now
                     (pendingConnectionUpdates s2)\<rparr>
         else s2)"

subsection \<open>The flush\<close>

text \<open>\<^verbatim>\<open>xs.slice(-n)\<close>: the last \<open>n\<close> elements.\<close>

definition sliceLast :: "nat \<Rightarrow> 'a list \<Rightarrow> 'a list" where
  "sliceLast n xs = drop (length xs - n) xs"

text \<open>
  \<^verbatim>\<open>updated.sort((a, b) => (b.lastActive || 0) - (a.lastActive || 0))\<close>: a stable
  sort, greatest \<^verbatim>\<open>lastActive\<close> first. Every record of the store was built by
  \<open>newConnection\<close>, so \<^verbatim>\<open>lastActive\<close> is a number and \<^verbatim>\<open>|| 0\<close> changes
  nothing.
\<close>

definition sortByLastActive :: "connection list \<Rightarrow> connection list" where
  "sortByLastActive cs = sort_key (\<lambda>c. - lastActive c) cs"

definition applyUpdate :: "(string \<times> update) list \<Rightarrow> connection \<Rightarrow> connection" where
  "applyUpdate connectionUpdates conn =
     (case map_of connectionUpdates (pairKey (src_ip conn) (dst_ip conn)) of
        Some u \<Rightarrow>
          conn\<lparr>bytes := bytes conn + bytes_u u, packets := packets conn + packets_u u,
               lastActive := lastActive_u u\<rparr>
      | None \<Rightarrow> conn)"

text \<open>The updater of the second \<^verbatim>\<open>setConnections\<close> of the flush.\<close>

definition applyUpdates :: "(string \<times> update) list \<Rightarrow> connection list \<Rightarrow> connection list" where
  "applyUpdates connectionUpdates prev = sortByLastActive (map (applyUpdate connectionUpdates) prev)"

text \<open>The updater of the first: \<^verbatim>\<open>[...newConnections, ...prev].slice(0, MAX_CONNECTIONS)\<close>.\<close>

definition insertConnections :: "connection list \<Rightarrow> connection list \<Rightarrow> connection list" where
  "insertConnections newConnections prev = take MAX_CONNECTIONS (newConnections @ prev)"

definition flushPacketEvents :: "int \<Rightarrow> packet_event list \<Rightarrow> packet_event list \<Rightarrow> packet_event list" where
  "flushPacketEvents cutoff newPacketEvents prev =
     (if newPacketEvents \<noteq> []
      then sliceLast MAX_PACKET_EVENTS (filter (\<lambda>e. timestamp_e e > cutoff) prev @ newPacketEvents)
      else (let filtered = filter (\<lambda>e. timestamp_e e > cutoff) prev
            in if length filtered \<noteq> length prev then filtered else prev))"

definition statsPositive :: "stats \<Rightarrow> bool" where
  "statsPositive u = (packets_s u > 0 \<or> flows u > 0 \<or> bytes_s u > 0)"

text \<open>
  \<^verbatim>\<open>flushBatchedUpdates\<close>, run by the interval timer; \<open>now\<close> is its
  \<^verbatim>\<open>Date.now()\<close>. The source replaces each pending list or map by an empty one
  when it is not empty, which leaves it empty in either case; the pending counters are
  reset only when one of them is positive.
\<close>

definition flushBatchedUpdates :: "int \<Rightarrow> app_state \<Rightarrow> app_state" where
  "flushBatchedUpdates now s =
     (let cutoff = now - PACKET_EVENT_TTL_MS;
          newPacketEvents = pendingPacketEvents s;
          newConnections = pendingNewConnections s;
          connectionUpdates = pendingConnectionUpdates s;
          statsUpdate = pendingStats s;
          conns1 = (if newConnections \<noteq> [] then insertConnections newConnections (connections s)
                    else connections s);
          conns2 = (if connectionUpdates \<noteq> [] then applyUpdates connectionUpdates conns1
                    else conns1)
      in s\<lparr>pendingPacketEvents := [],
           pendingNewConnections := [],
           pendingConnectionUpdates := [],
           pendingStats := (if statsPositive statsUpdate then zeroStats else pendingStats s),
           packetEvents := flushPacketEvents cutoff newPacketEvents (packetEvents s),
           connections := conns2,
           stats := (if statsPositive statsUpdate
                     then \<lparr>packets_s = packets_s (stats s) + packets_s statsUpdate,
                           flows = flows (stats s) + flows statsUpdate,
                           bytes_s = bytes_s (stats s) + bytes_s statsUpdate\<rparr>
                     else stats s)\<rparr>)"

subsection \<open>The other branches of the message handler\<close>

datatype error = SyntaxError | TypeError

text \<open>
  What \<^verbatim>\<open>ws.onmessage\<close> can be handed: the socket delivers any text.
  \<open>Unparsable\<close> is a text that \<^verbatim>\<open>JSON.parse\<close> rejects, \<open>JsonNull\<close> the text
  \<^verbatim>\<open>null\<close>, and \<open>Other\<close> any other value whose \<^verbatim>\<open>type\<close> is none of the six
  the handler knows. The remaining constructors carry the fields their branch reads;
  the \<open>geo\<close> of a \<^verbatim>\<open>geo_update\<close> may be missing.
\<close>

datatype message =
    Unparsable
  | JsonNull
  | ErrorMsg
  | Session
  | RecordingStatus "string option" recording bool
  | GeoUpdate string "geo option"
  | ProcessUpdate string string "string option" "int option"
  | PacketMsg packet
  | Other

text \<open>\<^verbatim>\<open>g?.unknown\<close> as a condition.\<close>

definition isUnknown :: "geo option \<Rightarrow> bool" where
  "isUnknown g = (case g of None \<Rightarrow> False | Some x \<Rightarrow> unknown x)"

text \<open>A string used as a condition: a missing one and the empty one are falsy.\<close>

definition truthy :: "string option \<Rightarrow> bool" where
  "truthy x = (case x of None \<Rightarrow> False | Some v \<Rightarrow> v \<noteq> [])"

definition patchGeo :: "string \<Rightarrow> geo \<Rightarrow> connection \<Rightarrow> connection" where
  "patchGeo ip g conn =
     (let updated = (if dst_ip conn = ip \<and> isUnknown (dst_geo conn)
                     then conn\<lparr>dst_geo := Some g\<rparr> else conn)
      in if src_ip conn = ip \<and> isUnknown (src_geo conn)
         then updated\<lparr>src_geo := Some g\<rparr> else updated)"

definition patchProcess :: "string \<Rightarrow> string \<Rightarrow> string option \<Rightarrow> int option \<Rightarrow> connection \<Rightarrow> connection" where
  "patchProcess sip dip pr pd conn =
     (if (src_ip conn = sip \<and> dst_ip conn = dip) \<or> (src_ip conn = dip \<and> dst_ip conn = sip)
      then (if truthy (process conn) then conn else conn\<lparr>process := pr, pid := pd\<rparr>)
      else conn)"

text \<open>
  \<^verbatim>\<open>ws.onmessage\<close>. Both exceptions are raised before the handler has changed
  anything, so an error carries no state.
\<close>

fun onmessage :: "int \<Rightarrow> string \<Rightarrow> message \<Rightarrow> app_state \<Rightarrow> error + app_state" where
  "onmessage now rnd Unparsable s = Inl SyntaxError"
| "onmessage now rnd JsonNull s = Inl TypeError"
| "onmessage now rnd ErrorMsg s = Inr (s\<lparr>capturing := False\<rparr>)"
| "onmessage now rnd Session s = Inr s"
| "onmessage now rnd (RecordingStatus status r err) s =
     Inr (if status = Some ''recording'' then s\<lparr>isRecording := True\<rparr>
          else if status = Some ''stopped'' then s\<lparr>isRecording := False, lastRecording := Some r\<rparr>
          else if err then s\<lparr>isRecording := False\<rparr>
          else s)"
| "onmessage now rnd (GeoUpdate ip None) s = Inl TypeError"
| "onmessage now rnd (GeoUpdate ip (Some g)) s =
     Inr (s\<lparr>connections := map (patchGeo ip g) (connections s)\<rparr>)"
| "onmessage now rnd (ProcessUpdate sip dip pr pd) s =
     Inr (s\<lparr>connections := map (patchProcess sip dip pr pd) (connections s)\<rparr>)"
| "onmessage now rnd (PacketMsg d) s = Inr (handlePacket now rnd d s)"
| "onmessage now rnd Other s = Inr s"

subsection \<open>Arc groups\<close>

record arc_group =
  key :: string
  srcGeo :: "geo option"
  dstGeo :: "geo option"
  process_g :: "string option"
  connections_g :: "connection list"
  totalBytes :: int
  totalPackets :: int

text \<open>
  \<^verbatim>\<open>x.toFixed(1)\<close> of a finite number below \<open>10\<^sup>2\<^sup>1\<close> in magnitude: the sign, then
  the integer \<open>n\<close> nearest to ten times the magnitude (the larger of two equally near),
  with a point before its last digit. A negative number that rounds to zero keeps its
  sign.
\<close>

definition toFixed1 :: "real \<Rightarrow> string" where
  "toFixed1 x =
     (let n = nat \<lfloor>\<bar>x\<bar> * 10 + 1 / 2\<rfloor>
      in (if x < 0 then ''-'' else []) @ natToString (n div 10) @ ''.'' @ natToString (n mod 10))"

text \<open>
  \<^verbatim>\<open>`${g.lat.toFixed(1)},${g.lon.toFixed(1)}`\<close>: calling \<^verbatim>\<open>toFixed\<close> on a
  coordinate that is \<^verbatim>\<open>null\<close> or \<^verbatim>\<open>undefined\<close> raises a TypeError.
\<close>

definition coordKey :: "geo \<Rightarrow> error + string" where
  "coordKey g =
     (case lat g of
        Val la \<Rightarrow>
          (case lon g of
             Val lo \<Rightarrow> Inr (toFixed1 la @ '','' @ toFixed1 lo)
           | Null \<Rightarrow> Inl TypeError
           | Undefined \<Rightarrow> Inl TypeError)
      | Null \<Rightarrow> Inl TypeError
      | Undefined \<Rightarrow> Inl TypeError)"

text \<open>\<^verbatim>\<open>a || b\<close> on two objects that may be missing.\<close>

definition orElse :: "'a option \<Rightarrow> 'a option \<Rightarrow> 'a option" where
  "orElse a b = (case a of Some x \<Rightarrow> Some x | None \<Rightarrow> b)"

text \<open>\<^verbatim>\<open>group.connections.push(conn)\<close> and the two sums.\<close>

definition pushConn :: "connection \<Rightarrow> arc_group \<Rightarrow> arc_group" where
  "pushConn conn g =
     g\<lparr>connections_g := connections_g g @ [conn],
       totalBytes := totalBytes g + bytes conn,
       totalPackets := totalPackets g + packets conn\<rparr>"

text \<open>
  \<^verbatim>\<open>if (!groups.has(key)) groups.set(key, fresh)\<close> and then
  \<^verbatim>\<open>groups.get(key)\<close> changed in place. The \<^verbatim>\<open>Map\<close> is the list of its values
  in insertion order, each value carrying its key.
\<close>

fun accumulate :: "arc_group \<Rightarrow> connection \<Rightarrow> arc_group list \<Rightarrow> arc_group list" where
  "accumulate fresh conn [] = [pushConn conn fresh]"
| "accumulate fresh conn (g # gs) =
     (if key g = key fresh then pushConn conn g # gs else g # accumulate fresh conn gs)"

text \<open>The body of \<^verbatim>\<open>connections.forEach\<close> in \<^verbatim>\<open>arcGroups\<close>.\<close>

definition arcStep :: "geo option \<Rightarrow> connection \<Rightarrow> arc_group list \<Rightarrow> error + arc_group list" where
  "arcStep homeLocation conn groups =
     (case orElse (src_geo conn) homeLocation of
        None \<Rightarrow> Inr groups
      | Some sg \<Rightarrow>
          (case orElse (dst_geo conn) homeLocation of
             None \<Rightarrow> Inr groups
           | Some dg \<Rightarrow>
               if pending sg \<or> pending dg then Inr groups
               else if nullish (lat sg) \<or> nullish (lat dg) then Inr groups
               else (case coordKey sg of
                       Inl e \<Rightarrow> Inl e
                     | Inr srcKey \<Rightarrow>
                         (case coordKey dg of
                            Inl e \<Rightarrow> Inl e
                          | Inr dstKey \<Rightarrow>
                              Inr (accumulate
                                     \<lparr>key = joinDash (sortPair srcKey dstKey),
                                      srcGeo = Some sg, dstGeo = Some dg, process_g = None,
                                      connections_g = [], totalBytes = 0, totalPackets = 0\<rparr>
                                     conn groups)))))"


text \<open>\<^verbatim>\<open>connections.forEach(body)\<close>: an exception in the body ends the loop.\<close>

fun forEachConn ::
  "(connection \<Rightarrow> arc_group list \<Rightarrow> error + arc_group list) \<Rightarrow> connection list \<Rightarrow>
   arc_group list \<Rightarrow> error + arc_group list" where
  "forEachConn body [] groups = Inr groups"
| "forEachConn body (conn # rest) groups =
     (case body conn groups of
        Inl e \<Rightarrow> Inl e
      | Inr groups' \<Rightarrow> forEachConn body rest groups')"

definition arcGroups :: "connection list \<Rightarrow> geo option \<Rightarrow> error + arc_group list" where
  "arcGroups conns homeLocation = forEachConn (arcStep homeLocation) conns []"


subsection \<open>Selection and the remaining handlers\<close>

text \<open>\<^verbatim>\<open>setSelectedConnectionId(conn?.id || null)\<close>\<close>

definition handleSelectConnection :: "connection option \<Rightarrow> app_state \<Rightarrow> app_state" where
  "handleSelectConnection conn s =
     s\<lparr>selectedConnectionId :=
         (case conn of None \<Rightarrow> None | Some c \<Rightarrow> if id_c c = [] then None else Some (id_c c))\<rparr>"

text \<open>
  \<^verbatim>\<open>setSelectedArcGroupKey(group?.key || null); setSelectedConnectionId(null)\<close>
\<close>

definition handleSelectArcGroup :: "arc_group option \<Rightarrow> app_state \<Rightarrow> app_state" where
  "handleSelectArcGroup grp s =
     s\<lparr>selectedArcGroupKey :=
         (case grp of None \<Rightarrow> None | Some g \<Rightarrow> if key g = [] then None else Some (key g)),
       selectedConnectionId := None\<rparr>"

definition clearArcFilter :: "app_state \<Rightarrow> app_state" where
  "clearArcFilter s = s\<lparr>selectedArcGroupKey := None\<rparr>"

text \<open>
  The state change of \<^verbatim>\<open>lookupIP\<close> once the answer \<open>data\<close> has arrived:
  \<^verbatim>\<open>if (data.lat && data.lon && !data.error)\<close>, where a coordinate of \<open>0\<close> is falsy.
  \<open>err\<close> says that \<^verbatim>\<open>data.error\<close> is truthy.
\<close>

definition lookupPatch :: "string \<Rightarrow> geo \<Rightarrow> connection \<Rightarrow> connection" where
  "lookupPatch ip data conn =
     (if dst_ip conn = ip \<and> isUnknown (dst_geo conn) then conn\<lparr>dst_geo := Some data\<rparr>
      else if src_ip conn = ip \<and> isUnknown (src_geo conn) then conn\<lparr>src_geo := Some data\<rparr>
      else conn)"

definition truthyNum :: "coord \<Rightarrow> bool" where
  "truthyNum x = (case x of Val v \<Rightarrow> v \<noteq> 0 | Null \<Rightarrow> False | Undefined \<Rightarrow> False)"

definition lookupResult :: "string \<Rightarrow> geo \<Rightarrow> bool \<Rightarrow> app_state \<Rightarrow> app_state" where
  "lookupResult ip data err s =
     (if truthyNum (lat data) \<and> truthyNum (lon data) \<and> \<not> err
      then s\<lparr>connections := map (lookupPatch ip data) (connections s)\<rparr>
      else s)"

text \<open>
  The state changes of \<^verbatim>\<open>startCapture\<close> with an interface selected (without one it
  returns at once): the pending refs are not reset.
\<close>

definition startCapture :: "app_state \<Rightarrow> app_state" where
  "startCapture s =
     s\<lparr>connections := [], packetEvents := [], stats := zeroStats,
       selectedConnectionId := None, selectedArcGroupKey := None\<rparr>"

definition stopCapture :: "app_state \<Rightarrow> app_state" where
  "stopCapture s = s\<lparr>capturing := False, isRecording := False\<rparr>"

definition clearConnections :: "app_state \<Rightarrow> app_state" where
  "clearConnections s =
     s\<lparr>connections := [], stats := zeroStats,
       selectedConnectionId := None, selectedArcGroupKey := None, lastRecording := None\<rparr>"

text \<open>
  Everything that changes the state, as one step function. A message whose handler
  raises leaves the state as it was: the exception leaves \<^verbatim>\<open>ws.onmessage\<close> and is
  reported by the browser. \<open>SetGroupMode\<close> is the table's
  \<^verbatim>\<open>onSetGroupMode\<close>, which also clears the arc filter; \<open>SocketOpen\<close> and
  \<open>SocketClosed\<close> are \<^verbatim>\<open>ws.onopen\<close> and \<^verbatim>\<open>ws.onclose\<close>/\<^verbatim>\<open>ws.onerror\<close>.
\<close>

datatype action =
    Message int string message
  | Flush int
  | SelectConnection "connection option"
  | SelectArcGroup "arc_group option"
  | ClearArcFilter
  | SetGroupMode
  | LookupResult string geo bool
  | StartCapture
  | StopCapture
  | SocketOpen
  | SocketClosed
  | ClearConnections

fun step :: "action \<Rightarrow> app_state \<Rightarrow> app_state" where
  "step (Message now rnd m) s = (case onmessage now rnd m s of Inl e \<Rightarrow> s | Inr s' \<Rightarrow> s')"
| "step (Flush now) s = flushBatchedUpdates now s"
| "step (SelectConnection conn) s = handleSelectConnection conn s"
| "step (SelectArcGroup grp) s = handleSelectArcGroup grp s"
| "step ClearArcFilter s = clearArcFilter s"
| "step SetGroupMode s = clearArcFilter s"
| "step (LookupResult ip data err) s = lookupResult ip data err s"
| "step StartCapture s = startCapture s"
| "step StopCapture s = stopCapture s"
| "step SocketOpen s = s\<lparr>capturing := True\<rparr>"
| "step SocketClosed s = s\<lparr>capturing := False\<rparr>"
| "step ClearConnections s = clearConnections s"

text \<open>The state after a sequence of steps, the first of the list first.\<close>

fun run :: "action list \<Rightarrow> app_state \<Rightarrow> app_state" where
  "run [] s = s"
| "run (a # as) s = run as (step a s)"

subsection \<open>Planar hit testing\<close>

type_synonym point = "real \<times> real"

text \<open>\<^verbatim>\<open>toXY\<close> of the map: equirectangular, then zoom about the centre, then pan.\<close>

definition toXY :: "real \<Rightarrow> real \<Rightarrow> real \<Rightarrow> real \<Rightarrow> real \<Rightarrow> point \<Rightarrow> point" where
  "toXY la lo w h z p =
     (let baseX = (lo + 180) / 360 * w;
          baseY = (90 - la) / 180 * h;
          centerX = w / 2;
          centerY = h / 2
      in ((baseX - centerX) * z + centerX + fst p, (baseY - centerY) * z + centerY + snd p))"

text \<open>
  The render position of an endpoint, \<^verbatim>\<open>toXY(geo.lat, geo.lon, ...)\<close>. A coordinate
  that is \<^verbatim>\<open>null\<close> is drawn at \<open>0\<close>. One that is \<^verbatim>\<open>undefined\<close> makes its
  component \<^verbatim>\<open>NaN\<close>; every distance to such a position, and every point of a curve
  from or to it, is \<^verbatim>\<open>NaN\<close> and below no radius, so one \<open>None\<close> stands for a
  position with a \<^verbatim>\<open>NaN\<close> component.
\<close>

definition geoXY :: "geo \<Rightarrow> real \<Rightarrow> real \<Rightarrow> real \<Rightarrow> point \<Rightarrow> point option" where
  "geoXY g w h z p =
     (case toNumber (lat g) of
        None \<Rightarrow> None
      | Some la \<Rightarrow>
          (case toNumber (lon g) of None \<Rightarrow> None | Some lo \<Rightarrow> Some (toXY la lo w h z p)))"

definition dist2d :: "real \<Rightarrow> real \<Rightarrow> point \<Rightarrow> real" where
  "dist2d x y q = sqrt ((x - fst q)\<^sup>2 + (y - snd q)\<^sup>2)"

definition hitRadius :: "real \<Rightarrow> real" where
  "hitRadius currentZoom = 18 * max 1 (currentZoom * 0.5)"

definition nodeHitRadius :: "real \<Rightarrow> real" where
  "nodeHitRadius currentZoom = 24 * max 1 (currentZoom * 0.5)"

text \<open>The point of the quadratic curve at parameter \<open>t\<close>.\<close>

definition arcPoint :: "real \<Rightarrow> point \<Rightarrow> point \<Rightarrow> point \<Rightarrow> point" where
  "arcPoint t src mid dst =
     (let mt = 1 - t
      in (mt * mt * fst src + 2 * mt * t * fst mid + t * t * fst dst,
          mt * mt * snd src + 2 * mt * t * snd mid + t * t * snd dst))"

text \<open>
  \<^verbatim>\<open>for (let t = 0; t <= 1; t += step) { ... if (distToArc < hitRadius) return group }\<close>,
  from the current \<open>t\<close> on: whether the loop returns the group. \<open>step\<close> is
  \<^verbatim>\<open>1 / numSamples\<close> with \<open>numSamples\<close> between 20 and 100, so it is positive; the
  test \<open>0 < step\<close> is what makes the recursion total. The sums \<open>t + step\<close> are exact
  here, so the samples are at \<open>k / numSamples\<close> for \<open>k\<close> from 0 to \<open>numSamples\<close>; in
  doubles they are rounded, which can leave out the last sample, the destination end,
  where the node test has looked already.
\<close>

function arcLoop :: "real \<Rightarrow> real \<Rightarrow> real \<Rightarrow> real \<Rightarrow> point \<Rightarrow> point \<Rightarrow> point \<Rightarrow> real \<Rightarrow> bool" where
  "arcLoop t stp mouseX mouseY src mid dst r =
     (if 0 < stp \<and> t \<le> 1
      then (if dist2d mouseX mouseY (arcPoint t src mid dst) < r then True
            else arcLoop (t + stp) stp mouseX mouseY src mid dst r)
      else False)"
  by pat_completeness auto
termination
proof (relation "measure (\<lambda>(t, stp, _). nat (\<lceil>(1 - t) / stp\<rceil> + 1))")
  show "wf (measure (\<lambda>(t, stp, _). nat (\<lceil>(1 - t) / stp\<rceil> + 1)))"
    by simp
next
  fix t stp :: real and mouseX mouseY :: real and src mid dst :: point and r :: real
  assume a: "0 < stp \<and> t \<le> 1"
  have e: "(1 - (t + stp)) / stp = (1 - t) / stp - 1"
    using a by (simp add: field_simps)
  have "0 \<le> (1 - t) / stp"
    using a by simp
  then have "0 \<le> \<lceil>(1 - t) / stp\<rceil>"
    by (simp add: ceiling_le_iff le_ceiling_iff)
  then show "((t + stp, stp, mouseX, mouseY, src, mid, dst, r), (t, stp, mouseX, mouseY, src, mid, dst, r))
      \<in> measure (\<lambda>(t, stp, _). nat (\<lceil>(1 - t) / stp\<rceil> + 1))"
    by (simp add: e)
qed

declare arcLoop.simps [simp del]

definition numSamples :: "real \<Rightarrow> int" where
  "numSamples screenDist = min 100 (max 20 \<lfloor>screenDist / 10\<rfloor>)"

text \<open>The arc test of one group whose two ends have render positions.\<close>

definition arcHit :: "real \<Rightarrow> real \<Rightarrow> point \<Rightarrow> point \<Rightarrow> real \<Rightarrow> bool" where
  "arcHit mouseX mouseY src dst r =
     (let midX = (fst src + fst dst) / 2;
          screenDist = sqrt ((fst dst - fst src)\<^sup>2 + (snd dst - snd src)\<^sup>2);
          midY = min (snd src) (snd dst) - screenDist * 0.15 - 15;
          stp = 1 / real_of_int (numSamples screenDist)
      in arcLoop 0 stp mouseX mouseY src (midX, midY) dst r)"

definition nodeNear :: "real \<Rightarrow> real \<Rightarrow> point option \<Rightarrow> real \<Rightarrow> bool" where
  "nodeNear mouseX mouseY q r = (case q of None \<Rightarrow> False | Some v \<Rightarrow> dist2d mouseX mouseY v < r)"

text \<open>The body of \<^verbatim>\<open>for (const group of currentArcGroups)\<close>: whether it returns the group.\<close>

definition groupHit :: "real \<Rightarrow> real \<Rightarrow> real \<Rightarrow> real \<Rightarrow> real \<Rightarrow> point \<Rightarrow> arc_group \<Rightarrow> bool" where
  "groupHit mouseX mouseY w h currentZoom currentPan g =
     (case srcGeo g of
        None \<Rightarrow> False
      | Some sg \<Rightarrow>
          (case dstGeo g of
             None \<Rightarrow> False
           | Some dg \<Rightarrow>
               (let src = geoXY sg w h currentZoom currentPan;
                    dst = geoXY dg w h currentZoom currentPan
                in if nodeNear mouseX mouseY src (nodeHitRadius currentZoom)
                      \<or> nodeNear mouseX mouseY dst (nodeHitRadius currentZoom)
                   then True
                   else (case src of
                           None \<Rightarrow> False
                         | Some a \<Rightarrow>
                             (case dst of
                                None \<Rightarrow> False
                              | Some b \<Rightarrow> arcHit mouseX mouseY a b (hitRadius currentZoom))))))"

fun hitTest ::
  "real \<Rightarrow> real \<Rightarrow> real \<Rightarrow> real \<Rightarrow> real \<Rightarrow> point \<Rightarrow> arc_group list \<Rightarrow> arc_group option" where
  "hitTest mouseX mouseY w h currentZoom currentPan [] = None"
| "hitTest mouseX mouseY w h currentZoom currentPan (g # gs) =
     (if groupHit mouseX mouseY w h currentZoom currentPan g then Some g
      else hitTest mouseX mouseY w h currentZoom currentPan gs)"

text \<open>
  \<^verbatim>\<open>handleClick\<close> repeats the loop of \<^verbatim>\<open>hitTest\<close> line by line and hands the
  group found, or \<^verbatim>\<open>null\<close>, to \<^verbatim>\<open>onSelectArcGroup\<close>; a press that moved more
  than five pixels is a drag and selects nothing.
\<close>

definition handleClick ::
  "real \<Rightarrow> real \<Rightarrow> real \<Rightarrow> real \<Rightarrow> real \<Rightarrow> real \<Rightarrow> point \<Rightarrow> arc_group list \<Rightarrow> app_state \<Rightarrow> app_state" where
  "handleClick dragDist clickX clickY w h currentZoom currentPan currentArcGroups s =
     (if dragDist > 5 then s
      else handleSelectArcGroup (hitTest clickX clickY w h currentZoom currentPan currentArcGroups) s)"

subsection \<open>The curve on the globe\<close>

text \<open>
  \<^verbatim>\<open>createArcCurve\<close> of \<^verbatim>\<open>Globe.jsx\<close> works on three.js vectors. The methods
  it calls are given here as that library defines them: \<^verbatim>\<open>normalize\<close> divides by the
  length, or by one when the length is zero; \<^verbatim>\<open>angleTo\<close> is the arc cosine of the
  clamped cosine, or \<open>\<pi>/2\<close> when one of the vectors is zero.
\<close>

type_synonym vec3 = "real \<times> real \<times> real"

definition latLonToVector3 :: "real \<Rightarrow> real \<Rightarrow> real \<Rightarrow> vec3" where
  "latLonToVector3 la lo radius =
     (let phi = (90 - la) * (pi / 180);
          theta = (lo + 180) * (pi / 180)
      in (- radius * sin phi * cos theta, radius * cos phi, radius * sin phi * sin theta))"

fun lengthSq :: "vec3 \<Rightarrow> real" where
  "lengthSq (x, y, z) = x * x + y * y + z * z"

fun dot :: "vec3 \<Rightarrow> vec3 \<Rightarrow> real" where
  "dot (x, y, z) (x', y', z') = x * x' + y * y' + z * z'"

fun multiplyScalar :: "vec3 \<Rightarrow> real \<Rightarrow> vec3" where
  "multiplyScalar (x, y, z) k = (x * k, y * k, z * k)"

definition normalize :: "vec3 \<Rightarrow> vec3" where
  "normalize v =
     (let l = sqrt (lengthSq v) in multiplyScalar v (1 / (if l = 0 then 1 else l)))"

definition angleTo :: "vec3 \<Rightarrow> vec3 \<Rightarrow> real" where
  "angleTo v u =
     (let denominator = sqrt (lengthSq v * lengthSq u)
      in if denominator = 0 then pi / 2
         else arccos (max (- 1) (min 1 (dot v u / denominator))))"

text \<open>
  A curve is the constructor called and its control points. The sines of the sampling
  loop are those of the engine: \<^verbatim>\<open>Math.sin\<close> is the parameter \<open>msin\<close> of the model,
  since the quotients of the loop depend on its rounding (\<^verbatim>\<open>Math.sin(Math.PI)\<close> is about
  \<open>1.2e-16\<close>, not zero, and the loop then divides by that number). A point of the
  sampled curve is \<open>None\<close> only where \<open>msin\<close> gives exactly zero for the angle, and
  JavaScript continues with an infinity or \<^verbatim>\<open>NaN\<close>.
\<close>

datatype curve =
    QuadraticBezierCurve3 vec3 vec3 vec3
  | CatmullRomCurve3 "vec3 option list"

text \<open>The body of the sampling loop, for the index \<open>i\<close> of \<open>segments = 32\<close>.\<close>

definition samplePoint ::
  "(real \<Rightarrow> real) \<Rightarrow> vec3 \<Rightarrow> vec3 \<Rightarrow> real \<Rightarrow> real \<Rightarrow> nat \<Rightarrow> vec3 option" where
  "samplePoint msin start end' angle arcHeight i =
     (let t = real i / 32;
          sinAngle = msin angle
      in if sinAngle = 0 then None
         else (let a = msin ((1 - t) * angle) / sinAngle;
                   b = msin (t * angle) / sinAngle;
                   point = (case (start, end') of
                              ((sx, sy, sz), (ex, ey, ez)) \<Rightarrow>
                                (a * sx + b * ex, a * sy + b * ey, a * sz + b * ez));
                   lift = 4 * t * (1 - t) * arcHeight
               in Some (multiplyScalar (normalize point) (1.01 + lift))))"

text \<open>The angle between the two unit vectors, the local \<^verbatim>\<open>angle\<close> of \<^verbatim>\<open>createArcCurve\<close>.\<close>

definition arcAngle :: "real \<Rightarrow> real \<Rightarrow> real \<Rightarrow> real \<Rightarrow> real" where
  "arcAngle startLat startLon endLat endLon =
     angleTo (normalize (latLonToVector3 startLat startLon 1))
             (normalize (latLonToVector3 endLat endLon 1))"

definition createArcCurve ::
  "(real \<Rightarrow> real) \<Rightarrow> real \<Rightarrow> real \<Rightarrow> real \<Rightarrow> real \<Rightarrow> curve" where
  "createArcCurve msin startLat startLon endLat endLon =
     (let start = normalize (latLonToVector3 startLat startLon 1);
          end' = normalize (latLonToVector3 endLat endLon 1);
          angle = angleTo start end';
          arcHeight = 0.1 + (angle / pi) * 0.3
      in if angle < 0.01
         then QuadraticBezierCurve3
                (multiplyScalar start 1.01)
                (multiplyScalar start (1.01 + arcHeight))
                (multiplyScalar end' 1.01)
         else CatmullRomCurve3 (map (samplePoint msin start end' angle arcHeight) [0..<33]))"

subsection \<open>Sequences of packet messages and flushes\<close>

text \<open>
  A packet message as it arrives: the clock and the random number its handler reads,
  and its fields.
\<close>

type_synonym arrival = "int \<times> string \<times> packet"

definition packetActions :: "arrival list \<Rightarrow> action list" where
  "packetActions evs = map (\<lambda>(now, rnd, d). Message now rnd (PacketMsg d)) evs"

text \<open>Flush cycles: in each, the messages that arrive, then the flush at its time.\<close>

fun cycles :: "(arrival list \<times> int) list \<Rightarrow> action list" where
  "cycles [] = []"
| "cycles ((evs, t) # cs) = packetActions evs @ Flush t # cycles cs"

definition arrivalKey :: "arrival \<Rightarrow> string" where
  "arrivalKey a = (case a of (now, rnd, d) \<Rightarrow> pairKey (src_ip_p d) (dst_ip_p d))"

definition arrivalLength :: "arrival \<Rightarrow> int" where
  "arrivalLength a = (case a of (now, rnd, d) \<Rightarrow> lengthOr0 d)"

text \<open>A packet of an existing flow that the handler coalesces: not a new flow, and one end has a geo.\<close>

definition coalesced :: "arrival \<Rightarrow> bool" where
  "coalesced a = (case a of (now, rnd, d) \<Rightarrow> \<not> new_flow d \<and> hasGeo d)"

text \<open>
  What a list of arrivals owes a connection: the lengths and the number of those with
  its pairing key, and the time of the last of them.
\<close>

definition credited :: "arrival list \<Rightarrow> connection \<Rightarrow> connection" where
  "credited evs c =
     (let ms = filter (\<lambda>a. arrivalKey a = connPairKey c) evs
      in if ms = [] then c
         else c\<lparr>bytes := bytes c + sum_list (map arrivalLength ms),
                packets := packets c + int (length ms),
                lastActive := fst (last ms)\<rparr>)"

text \<open>The pending entry of a key after a list of coalesced arrivals, from the entry \<open>u\<close> before.\<close>

definition pendingFor :: "string \<Rightarrow> arrival list \<Rightarrow> update option \<Rightarrow> update option" where
  "pendingFor k evs u =
     (let ms = filter (\<lambda>a. arrivalKey a = k) evs
      in if ms = [] then u
         else Some \<lparr>bytes_u = (case u of None \<Rightarrow> 0 | Some e \<Rightarrow> bytes_u e) + sum_list (map arrivalLength ms),
                    packets_u = (case u of None \<Rightarrow> 0 | Some e \<Rightarrow> packets_u e) + int (length ms),
                    lastActive_u = fst (last ms)\<rparr>)"

subsection \<open>Vocabulary of the delta properties\<close>

text \<open>
  The list that the delta updater of a flush receives as \<^verbatim>\<open>prev\<close>: the store as the
  insert of the same flush, queued before it, has left it.
\<close>

definition deltaStore :: "app_state \<Rightarrow> connection list" where
  "deltaStore s =
     (if pendingNewConnections s \<noteq> []
      then insertConnections (pendingNewConnections s) (connections s)
      else connections s)"

subsection \<open>Vocabulary of the aggregation properties\<close>


text \<open>An effective geo that is absent, marked pending, or missing a coordinate, either one.\<close>

definition noCoordinates :: "geo option \<Rightarrow> bool" where
  "noCoordinates g =
     (case g of None \<Rightarrow> True | Some x \<Rightarrow> pending x \<or> nullish (lat x) \<or> nullish (lon x))"


definition arcExcluded :: "geo option \<Rightarrow> connection \<Rightarrow> bool" where
  "arcExcluded homeLocation c =
     (noCoordinates (orElse (src_geo c) homeLocation)
      \<or> noCoordinates (orElse (dst_geo c) homeLocation))"



text \<open>
  A geo that has a longitude wherever it has a latitude. On any other,
  \<^verbatim>\<open>lon.toFixed\<close> raises.
\<close>

definition wellFormedGeo :: "geo option \<Rightarrow> bool" where
  "wellFormedGeo g =
     (case g of None \<Rightarrow> True | Some x \<Rightarrow> nullish (lat x) \<or> \<not> nullish (lon x))"

text \<open>The connection seen from its other end.\<close>

definition swapEnds :: "connection \<Rightarrow> connection" where
  "swapEnds c =
     c\<lparr>src_ip := dst_ip c, dst_ip := src_ip c, src_geo := dst_geo c, dst_geo := src_geo c\<rparr>"

text \<open>What the symmetry is about: a group's key, its two sums and the number of its members.\<close>

definition summary :: "arc_group \<Rightarrow> string \<times> int \<times> int \<times> nat" where
  "summary g = (key g, totalBytes g, totalPackets g, length (connections_g g))"

subsection \<open>Vocabulary of the hit-test properties\<close>

text \<open>The on-screen distance of the two ends and the control point of the curve between them.\<close>

definition screenDistOf :: "point \<Rightarrow> point \<Rightarrow> real" where
  "screenDistOf src dst = sqrt ((fst dst - fst src)\<^sup>2 + (snd dst - snd src)\<^sup>2)"

definition controlPoint :: "point \<Rightarrow> point \<Rightarrow> point" where
  "controlPoint src dst =
     ((fst src + fst dst) / 2, min (snd src) (snd dst) - screenDistOf src dst * 0.15 - 15)"

text \<open>
  The pointer is at least the node hit radius away from each end of the group that has
  a render position, and at least the arc hit radius away from each of the samples
  \<open>k / numSamples\<close>, \<open>k = 0, \<dots>, numSamples\<close>, of its curve.
\<close>

definition farFromGroup :: "real \<Rightarrow> real \<Rightarrow> real \<Rightarrow> real \<Rightarrow> real \<Rightarrow> point \<Rightarrow> arc_group \<Rightarrow> bool" where
  "farFromGroup mouseX mouseY w h z p g =
     (\<forall>sg dg. srcGeo g = Some sg \<and> dstGeo g = Some dg \<longrightarrow>
        (\<forall>a. geoXY sg w h z p = Some a \<longrightarrow> nodeHitRadius z \<le> dist2d mouseX mouseY a)
      \<and> (\<forall>b. geoXY dg w h z p = Some b \<longrightarrow> nodeHitRadius z \<le> dist2d mouseX mouseY b)
      \<and> (\<forall>a b. geoXY sg w h z p = Some a \<and> geoXY dg w h z p = Some b \<longrightarrow>
            (\<forall>k::nat. int k \<le> numSamples (screenDistOf a b) \<longrightarrow>
               hitRadius z \<le> dist2d mouseX mouseY
                 (arcPoint (real k / real_of_int (numSamples (screenDistOf a b))) a (controlPoint a b) b))))"

subsection \<open>Example values\<close>

definition exampleGeo :: geo where
  "exampleGeo = \<lparr>lat = Val 42.1, lon = Val (- 71.2), pending = False, unknown = False\<rparr>"

text \<open>The first packet of a flow from \<^verbatim>\<open>10.0.0.5\<close> to \<^verbatim>\<open>93.184.216.34\<close>, 100 bytes long.\<close>

definition firstPacket :: packet where
  "firstPacket =
     \<lparr>src_ip_p = ''10.0.0.5'', dst_ip_p = ''93.184.216.34'',
      src_port_p = Some 50000, dst_port_p = Some 443,
      src_geo_p = None, dst_geo_p = Some exampleGeo,
      protocol_p = Some ''TCP'', process_p = None, pid_p = None,
      length_p = Some 100, new_flow = True, timestamp_p = None\<rparr>"

text \<open>A later packet of the same flow, 250 bytes long.\<close>

definition secondPacket :: packet where
  "secondPacket = firstPacket\<lparr>length_p := Some 250, new_flow := False\<rparr>"

text \<open>An answer on the same flow, 30 bytes long.\<close>

definition replyPacket :: packet where
  "replyPacket =
     secondPacket\<lparr>src_ip_p := ''93.184.216.34'', dst_ip_p := ''10.0.0.5'',
                  src_geo_p := Some exampleGeo, dst_geo_p := None, length_p := Some 30\<rparr>"

text \<open>The second packet as the server sends it when neither address has a geo.\<close>

definition noGeoPacket :: packet where
  "noGeoPacket = secondPacket\<lparr>dst_geo_p := None\<rparr>"

text \<open>A packet of another flow, for which the store has no record.\<close>

definition strayPacket :: packet where
  "strayPacket = secondPacket\<lparr>dst_ip_p := ''1.1.1.1''\<rparr>"

text \<open>The store with the one connection of the flow, created at time 1 and flushed at time 10.\<close>

definition exampleStore :: app_state where
  "exampleStore = run [Message 1 ''0.25'' (PacketMsg firstPacket), Flush 10] initState"

definition exampleCycles :: "(arrival list \<times> int) list" where
  "exampleCycles =
     [([(20, ''0.5'', secondPacket)], 50),
      ([], 100),
      ([(120, ''0.75'', replyPacket), (130, ''0.125'', secondPacket)], 150)]"

text \<open>A home location, and the location-mode group of the example store seen from it.\<close>

definition exampleHome :: geo where
  "exampleHome = \<lparr>lat = Val 37.8, lon = Val (- 122.4), pending = False, unknown = False\<rparr>"

definition exampleGroup :: arc_group where
  "exampleGroup =
     \<lparr>key = ''37.8,-122.4-42.1,-71.2'', srcGeo = Some exampleHome, dstGeo = Some exampleGeo,
      process_g = None, connections_g = [newConnection 1 firstPacket],
      totalBytes = 100, totalPackets = 1\<rparr>"

text \<open>The example store after a packet of a flow it has no record of.\<close>

definition strayState :: app_state where
  "strayState = run [Message 20 ''0.5'' (PacketMsg strayPacket)] exampleStore"

text \<open>A second flow, to another address.\<close>

definition laterFlowPacket :: packet where
  "laterFlowPacket = firstPacket\<lparr>dst_ip_p := ''198.51.100.7''\<rparr>"

text \<open>The same state after the first packet of that second flow, at time 30: an insert is pending too.\<close>

definition strayInsertState :: app_state where
  "strayInsertState = run [Message 30 ''0.75'' (PacketMsg laterFlowPacket)] strayState"

text \<open>The first packets of 999 further flows, to 999 addresses.\<close>

definition burstPacket :: "nat \<Rightarrow> packet" where
  "burstPacket i =
     firstPacket\<lparr>dst_ip_p := ''203.0.'' @ natToString (i div 250) @ ''.'' @ natToString (i mod 250)\<rparr>"

definition exampleBurst :: "arrival list" where
  "exampleBurst = map (\<lambda>i. (20, ''0.5'', burstPacket i)) [0..<999]"

text \<open>
  Two flows start at times 1 and 2 and are flushed at time 10; then the burst arrives
  and is flushed at time 30.
\<close>

definition overflowStart :: app_state where
  "overflowStart =
     run [Message 1 ''0.25'' (PacketMsg firstPacket),
          Message 2 ''0.75'' (PacketMsg laterFlowPacket), Flush 10] initState"

definition overflowEnd :: app_state where
  "overflowEnd = run (packetActions exampleBurst @ [Flush 30]) overflowStart"

text \<open>A packet arrives at time 0 and the next flush runs at time 5000.\<close>

definition lateFlush :: app_state where
  "lateFlush = run [Message 0 ''0.25'' (PacketMsg firstPacket), Flush 5000] initState"

text \<open>Packets at times 0 and 1500, each flushed ten milliseconds later.\<close>

definition windowState :: app_state where
  "windowState =
     run [Message 0 ''0.25'' (PacketMsg firstPacket), Flush 10,
          Message 1500 ''0.5'' (PacketMsg secondPacket), Flush 1510] initState"

text \<open>A connection whose destination is still being looked up.\<close>

definition pendingGeo :: geo where
  "pendingGeo = \<lparr>lat = Null, lon = Null, pending = True, unknown = False\<rparr>"

definition pendingConn :: connection where
  "pendingConn =
     newConnection 5 (firstPacket\<lparr>dst_ip_p := ''192.0.2.9'', dst_geo_p := Some pendingGeo\<rparr>)"

text \<open>
  A connection whose source has a latitude and no longitude, and the app-mode group
  that holds it.
\<close>

definition lonlessGeo :: geo where
  "lonlessGeo = \<lparr>lat = Val 10, lon = Undefined, pending = False, unknown = False\<rparr>"

definition lonlessConn :: connection where
  "lonlessConn =
     newConnection 7 (firstPacket\<lparr>src_ip_p := ''192.0.2.33'', src_geo_p := Some lonlessGeo\<rparr>)"


text \<open>The connection that the answering side would have opened.\<close>

definition replyConn :: connection where
  "replyConn = newConnection 3 (replyPacket\<lparr>new_flow := True\<rparr>)"










text \<open>The same, with a third packet arrived at time 2000 and not yet flushed.\<close>

definition windowPending :: app_state where
  "windowPending = run [Message 2000 ''0.125'' (PacketMsg replyPacket)] windowState"

section \<open>Properties\<close>

subsection \<open>Running and flushing\<close>

lemma run_append: "run (xs @ ys) s = run ys (run xs s)"
  by (induction xs arbitrary: s) auto

lemma mset_sortByLastActive: "mset (sortByLastActive cs) = mset cs"
  by (simp add: sortByLastActive_def)

lemma mset_applyUpdates: "mset (applyUpdates u cs) = image_mset (applyUpdate u) (mset cs)"
  by (simp add: applyUpdates_def mset_sortByLastActive)

lemma length_applyUpdates: "length (applyUpdates u cs) = length cs"
  by (simp add: applyUpdates_def sortByLastActive_def)

lemma applyUpdate_empty: "applyUpdate [] c = c"
  by (simp add: applyUpdate_def)

lemma applyUpdate_no_match: "map_of u (connPairKey c) = None \<Longrightarrow> applyUpdate u c = c"
  by (simp add: applyUpdate_def connPairKey_def)

lemma connections_flush:
  "connections (flushBatchedUpdates now s) =
     (if pendingConnectionUpdates s \<noteq> []
      then applyUpdates (pendingConnectionUpdates s)
             (if pendingNewConnections s \<noteq> []
              then insertConnections (pendingNewConnections s) (connections s) else connections s)
      else (if pendingNewConnections s \<noteq> []
            then insertConnections (pendingNewConnections s) (connections s) else connections s))"
  by (simp add: flushBatchedUpdates_def Let_def)

lemma pending_after_flush:
  "pendingNewConnections (flushBatchedUpdates now s) = []"
  "pendingConnectionUpdates (flushBatchedUpdates now s) = []"
  "pendingPacketEvents (flushBatchedUpdates now s) = []"
  by (simp_all add: flushBatchedUpdates_def Let_def)

lemma mset_flush_updates_only:
  assumes "pendingNewConnections s = []"
  shows "mset (connections (flushBatchedUpdates now s))
         = image_mset (applyUpdate (pendingConnectionUpdates s)) (mset (connections s))"
proof (cases "pendingConnectionUpdates s = []")
  case True
  have "image_mset (applyUpdate []) (mset (connections s)) = mset (connections s)"
    by (simp add: applyUpdate_empty [abs_def])
  then show ?thesis
    using assms True by (simp add: connections_flush)
next
  case False
  then show ?thesis
    using assms by (simp add: connections_flush mset_applyUpdates)
qed

lemma pairKey_example: "pairKey ''10.0.0.5'' ''93.184.216.34'' = ''10.0.0.5-93.184.216.34''"
  by (simp add: pairKey_def sortPair_def)

lemma pairKey_example_swapped: "pairKey ''93.184.216.34'' ''10.0.0.5'' = ''10.0.0.5-93.184.216.34''"
  by (simp add: pairKey_def sortPair_def)

lemma pairKey_stray: "pairKey ''10.0.0.5'' ''1.1.1.1'' = ''1.1.1.1-10.0.0.5''"
  by (simp add: pairKey_def sortPair_def)

lemma connections_exampleStore: "connections exampleStore = [newConnection 1 firstPacket]"
  by (simp add: exampleStore_def handlePacket_def flushBatchedUpdates_def initState_def
      firstPacket_def hasGeo_def Let_def insertConnections_def MAX_CONNECTIONS_def)

lemma pending_exampleStore:
  "pendingNewConnections exampleStore = []" "pendingConnectionUpdates exampleStore = []"
  by (simp_all add: exampleStore_def pending_after_flush)

lemma connPairKey_newConnection:
  "connPairKey (newConnection t d) = pairKey (src_ip_p d) (dst_ip_p d)"
  by (simp add: connPairKey_def newConnection_def)

subsection \<open>Coalescing\<close>

lemma map_of_bumpUpdate:
  "map_of (bumpUpdate k len now m) k' =
     (if k' = k
      then Some \<lparr>bytes_u = (case map_of m k of None \<Rightarrow> 0 | Some e \<Rightarrow> bytes_u e) + len,
                 packets_u = (case map_of m k of None \<Rightarrow> 0 | Some e \<Rightarrow> packets_u e) + 1,
                 lastActive_u = now\<rparr>
      else map_of m k')"
  by (simp add: bumpUpdate_def update_conv' split: option.splits)

lemma handlePacket_coalesced:
  assumes "\<not> new_flow d" "hasGeo d"
  shows "connections (handlePacket now rnd d s) = connections s"
    and "pendingNewConnections (handlePacket now rnd d s) = pendingNewConnections s"
    and "pendingConnectionUpdates (handlePacket now rnd d s)
         = bumpUpdate (pairKey (src_ip_p d) (dst_ip_p d)) (lengthOr0 d) now (pendingConnectionUpdates s)"
  using assms by (simp_all add: handlePacket_def Let_def)

lemma pendingFor_Cons:
  "pendingFor k (a # evs) u =
     pendingFor k evs
       (if arrivalKey a = k
        then Some \<lparr>bytes_u = (case u of None \<Rightarrow> 0 | Some e \<Rightarrow> bytes_u e) + arrivalLength a,
                   packets_u = (case u of None \<Rightarrow> 0 | Some e \<Rightarrow> packets_u e) + 1,
                   lastActive_u = fst a\<rparr>
        else u)"
  by (simp add: pendingFor_def Let_def)

text \<open>
  Coalesced packets leave the store and the pending inserts alone, and the pending entry
  of every key is the sum over the packets with that key.
\<close>

lemma ingest_coalesced:
  assumes "\<forall>a \<in> set evs. coalesced a"
  shows "connections (run (packetActions evs) s) = connections s
       \<and> pendingNewConnections (run (packetActions evs) s) = pendingNewConnections s
       \<and> map_of (pendingConnectionUpdates (run (packetActions evs) s)) k
           = pendingFor k evs (map_of (pendingConnectionUpdates s) k)"
  using assms
proof (induction evs arbitrary: s)
  case Nil
  then show ?case by (simp add: packetActions_def pendingFor_def)
next
  case (Cons a evs)
  obtain now rnd d where a: "a = (now, rnd, d)" by (cases a)
  from Cons.prems a have c: "\<not> new_flow d" "hasGeo d" and rest: "\<forall>a \<in> set evs. coalesced a"
    by (simp_all add: coalesced_def)
  have r: "run (packetActions (a # evs)) s = run (packetActions evs) (handlePacket now rnd d s)"
    by (simp add: packetActions_def a)
  show ?case
    unfolding r
    using Cons.IH [OF rest, of "handlePacket now rnd d s"]
    by (simp add: handlePacket_coalesced [OF c] pendingFor_Cons map_of_bumpUpdate a
        arrivalKey_def arrivalLength_def)
qed

lemma connPairKey_credited: "connPairKey (credited evs c) = connPairKey c"
  by (simp add: credited_def connPairKey_def Let_def)

lemma credited_append: "credited (evs1 @ evs2) c = credited evs2 (credited evs1 c)"
proof -
  have k: "connPairKey (credited evs1 c) = connPairKey c"
    by (rule connPairKey_credited)
  show ?thesis
    unfolding credited_def [of evs2] k
    by (simp add: credited_def Let_def)
qed

lemma applyUpdate_credited:
  assumes "map_of u (connPairKey c) = pendingFor (connPairKey c) evs None"
  shows "applyUpdate u c = credited evs c"
  using assms by (simp add: applyUpdate_def credited_def pendingFor_def connPairKey_def Let_def)

lemma one_cycle:
  assumes ok: "\<forall>a \<in> set evs. coalesced a"
    and pn: "pendingNewConnections s = []"
    and pu: "pendingConnectionUpdates s = []"
  shows "mset (connections (run (packetActions evs @ [Flush t]) s))
         = image_mset (credited evs) (mset (connections s))"
proof -
  let ?s1 = "run (packetActions evs) s"
  note ing = ingest_coalesced [OF ok, of s]
  have c1: "connections ?s1 = connections s" and n1: "pendingNewConnections ?s1 = []"
    using ing pn by simp_all
  have m1: "map_of (pendingConnectionUpdates ?s1) k = pendingFor k evs None" for k
    using ingest_coalesced [OF ok, of s k] pu by simp
  have "applyUpdate (pendingConnectionUpdates ?s1) c = credited evs c" for c
    by (rule applyUpdate_credited) (rule m1)
  then have "applyUpdate (pendingConnectionUpdates ?s1) = credited evs"
    by (rule ext)
  then show ?thesis
    using mset_flush_updates_only [OF n1, of t] by (simp add: run_append c1)
qed

lemma image_mset_credited_append:
  "image_mset (credited evs2) (image_mset (credited evs1) M) = image_mset (credited (evs1 @ evs2)) M"
  by (simp add: multiset.map_comp comp_def credited_append [symmetric])

lemma cycles_credited:
  assumes "\<forall>a \<in> set (concat (map fst cs)). coalesced a"
    and "pendingNewConnections s = []"
    and "pendingConnectionUpdates s = []"
  shows "mset (connections (run (cycles cs) s))
         = image_mset (credited (concat (map fst cs))) (mset (connections s))"
  using assms
proof (induction cs arbitrary: s)
  case Nil
  have "credited [] = (\<lambda>c. c)"
    by (rule ext) (simp add: credited_def)
  then show ?case by simp
next
  case (Cons cyc cs)
  obtain evs t where cyc: "cyc = (evs, t)" by (cases cyc)
  let ?s1 = "run (packetActions evs @ [Flush t]) s"
  from Cons.prems(1) cyc have ok1: "\<forall>a \<in> set evs. coalesced a"
    and ok2: "\<forall>a \<in> set (concat (map fst cs)). coalesced a"
    by auto
  have s1: "?s1 = flushBatchedUpdates t (run (packetActions evs) s)"
    by (simp add: run_append)
  have p: "pendingNewConnections ?s1 = []" "pendingConnectionUpdates ?s1 = []"
    unfolding s1 by (rule pending_after_flush)+
  have split: "run (cycles (cyc # cs)) s = run (cycles cs) ?s1"
    by (simp add: cyc run_append)
  have "mset (connections (run (cycles cs) ?s1))
        = image_mset (credited (concat (map fst cs))) (mset (connections ?s1))"
    by (rule Cons.IH [OF ok2 p])
  also have "mset (connections ?s1) = image_mset (credited evs) (mset (connections s))"
    by (rule one_cycle [OF ok1 Cons.prems(2) Cons.prems(3)])
  finally show ?case
    unfolding split by (simp add: image_mset_credited_append cyc)
qed

lemma example_same_window:
  "connections (run [Message t1 r1 (PacketMsg firstPacket), Message t2 r2 (PacketMsg secondPacket),
                     Flush now] initState)
   = [(newConnection t1 firstPacket)\<lparr>bytes := 350, packets := 2, lastActive := t2\<rparr>]"
  by (simp add: handlePacket_def flushBatchedUpdates_def initState_def firstPacket_def
      secondPacket_def hasGeo_def Let_def bumpUpdate_def insertConnections_def MAX_CONNECTIONS_def
      applyUpdates_def applyUpdate_def sortByLastActive_def newConnection_def pairKey_example
      lengthOr0_def)

text \<open>
  C1, as the code has it. Take any flush cycles whose packet messages are all coalesced
  ones (not a new flow, and a geo on at least one end), starting from a state with
  nothing pending for the store. After the last flush the store holds, up to the order
  that the re-sort gives, the records it held before, each with \<open>bytes\<close> raised by the
  sum of the lengths of the packets that carry its pairing key, \<open>packets\<close> raised by
  their number, and \<open>lastActive\<close> set to the time of the last of them; a record that no
  packet matches is unchanged. The right-hand side reads only the concatenation of the
  cycles, so the split into cycles does not matter. The second part is the example:
  from the initial state, a new-flow packet of 100 bytes and a packet of 250 bytes of the
  same flow in one flush window, with a geo on the destination, give one connection with
  350 bytes and 2 packets. The claim as worded also covers a packet with no geo on
  either end, which the handler does not count towards any connection.
\<close>

theorem C1_deltas_sum_over_cycles:
  "((\<forall>a \<in> set (concat (map fst cs)). coalesced a)
      \<and> pendingNewConnections s = [] \<and> pendingConnectionUpdates s = []
    \<longrightarrow> mset (connections (run (cycles cs) s))
        = image_mset (credited (concat (map fst cs))) (mset (connections s)))
   \<and> connections (run [Message t1 r1 (PacketMsg firstPacket),
                        Message t2 r2 (PacketMsg secondPacket), Flush now] initState)
     = [(newConnection t1 firstPacket)\<lparr>bytes := 350, packets := 2, lastActive := t2\<rparr>]"
  using cycles_credited [of cs s] example_same_window [of t1 r1 t2 r2 now] by blast

theorem C1_deltas_sum_over_cycles_witness:
  "list_all coalesced (concat (map fst exampleCycles))
   \<and> pendingNewConnections exampleStore = [] \<and> pendingConnectionUpdates exampleStore = []
   \<and> connections exampleStore = [newConnection 1 firstPacket]
   \<and> mset (connections (run (cycles exampleCycles) exampleStore))
     = {#(newConnection 1 firstPacket)\<lparr>bytes := 100 + (250 + 30 + 250), packets := 1 + 3,
                                          lastActive := 130\<rparr>#}"
proof -
  have ok: "\<forall>a \<in> set (concat (map fst exampleCycles)). coalesced a"
    by (simp add: exampleCycles_def coalesced_def secondPacket_def replyPacket_def firstPacket_def
        hasGeo_def)
  have cr: "credited (concat (map fst exampleCycles)) (newConnection 1 firstPacket)
            = (newConnection 1 firstPacket)\<lparr>bytes := 100 + (250 + 30 + 250), packets := 1 + 3,
                                               lastActive := 130\<rparr>"
    by (simp add: credited_def exampleCycles_def arrivalKey_def arrivalLength_def
        connPairKey_def secondPacket_def replyPacket_def firstPacket_def pairKey_example
        pairKey_example_swapped lengthOr0_def newConnection_def)
  from C1_deltas_sum_over_cycles [of exampleCycles exampleStore 0 "[]" 0 "[]" 0] ok
  have "mset (connections (run (cycles exampleCycles) exampleStore))
        = image_mset (credited (concat (map fst exampleCycles))) (mset (connections exampleStore))"
    by (simp add: pending_exampleStore)
  then show ?thesis
    using ok by (simp add: connections_exampleStore cr pending_exampleStore list_all_iff)
qed

theorem C1_deltas_sum_over_cycles_counterexample:
  "\<not> new_flow noGeoPacket
   \<and> pairKey (src_ip_p noGeoPacket) (dst_ip_p noGeoPacket) = connPairKey (newConnection 1 firstPacket)
   \<and> length_p noGeoPacket = Some 250
   \<and> connections exampleStore = [newConnection 1 firstPacket]
   \<and> bytes (newConnection 1 firstPacket) = 100
   \<and> packets (newConnection 1 firstPacket) = 1
   \<and> connections (run [Message 20 ''0.5'' (PacketMsg noGeoPacket), Flush 50] exampleStore)
     = [newConnection 1 firstPacket]"
  by (simp add: noGeoPacket_def secondPacket_def firstPacket_def connPairKey_def
      connections_exampleStore pending_exampleStore handlePacket_def hasGeo_def Let_def
      connections_flush newConnection_def lengthOr0_def)

subsection \<open>Deltas without a record\<close>

lemma stats_flush:
  "statsPositive (pendingStats s) \<Longrightarrow>
   stats (flushBatchedUpdates now s) =
     \<lparr>packets_s = packets_s (stats s) + packets_s (pendingStats s),
      flows = flows (stats s) + flows (pendingStats s),
      bytes_s = bytes_s (stats s) + bytes_s (pendingStats s)\<rparr>"
  by (simp add: flushBatchedUpdates_def Let_def)

lemma connections_flush_deltaStore:
  "connections (flushBatchedUpdates now s) =
     (if pendingConnectionUpdates s \<noteq> []
      then applyUpdates (pendingConnectionUpdates s) (deltaStore s) else deltaStore s)"
  by (simp add: connections_flush deltaStore_def)

lemma mset_flush_deltaStore:
  "mset (connections (flushBatchedUpdates now s))
     = image_mset (applyUpdate (pendingConnectionUpdates s)) (mset (deltaStore s))"
proof (cases "pendingConnectionUpdates s = []")
  case True
  have "image_mset (applyUpdate []) (mset (deltaStore s)) = mset (deltaStore s)"
    by (simp add: applyUpdate_empty [abs_def])
  with True show ?thesis
    by (simp add: connections_flush_deltaStore)
next
  case False
  then show ?thesis
    by (simp add: connections_flush_deltaStore mset_applyUpdates)
qed

lemma applyUpdate_delete:
  "connPairKey c \<noteq> k \<Longrightarrow> applyUpdate (AList.delete k u) c = applyUpdate u c"
  by (simp add: applyUpdate_def connPairKey_def delete_conv)

lemma map_applyUpdate_delete:
  assumes "\<forall>c \<in> set prev. connPairKey c \<noteq> k"
  shows "map (applyUpdate (AList.delete k u)) prev = map (applyUpdate u) prev"
  using assms by (intro map_cong refl) (simp add: applyUpdate_delete)

lemma map_applyUpdate_no_match:
  assumes "\<forall>c \<in> set prev. map_of u (connPairKey c) = None"
  shows "map (applyUpdate u) prev = prev"
  using assms by (intro map_idI) (simp add: applyUpdate_no_match)

lemma deltaStore_flush_deleted:
  "deltaStore (s\<lparr>pendingConnectionUpdates := u'\<rparr>) = deltaStore s"
  by (simp add: deltaStore_def)

lemma stats_exampleStore:
  "stats exampleStore = \<lparr>packets_s = 1, flows = 1, bytes_s = 100\<rparr>"
  "pendingStats exampleStore = zeroStats"
  by (simp_all add: exampleStore_def handlePacket_def flushBatchedUpdates_def initState_def
      firstPacket_def hasGeo_def Let_def zeroStats_def statsPositive_def lengthOr0_def)

lemma strayState_fields:
  "connections strayState = [newConnection 1 firstPacket]"
  "pendingNewConnections strayState = []"
  "pendingConnectionUpdates strayState
     = [(''1.1.1.1-10.0.0.5'', \<lparr>bytes_u = 250, packets_u = 1, lastActive_u = 20\<rparr>)]"
  "pendingStats strayState = \<lparr>packets_s = 1, flows = 0, bytes_s = 250\<rparr>"
  "stats strayState = \<lparr>packets_s = 1, flows = 1, bytes_s = 100\<rparr>"
  by (simp_all add: strayState_def connections_exampleStore pending_exampleStore
      handlePacket_def hasGeo_def Let_def strayPacket_def secondPacket_def firstPacket_def
      pairKey_stray bumpUpdate_def lengthOr0_def stats_exampleStore zeroStats_def)

lemma strayInsertState_fields:
  "connections strayInsertState = [newConnection 1 firstPacket]"
  "pendingNewConnections strayInsertState = [newConnection 30 laterFlowPacket]"
  "pendingConnectionUpdates strayInsertState
     = [(''1.1.1.1-10.0.0.5'', \<lparr>bytes_u = 250, packets_u = 1, lastActive_u = 20\<rparr>)]"
proof -
  have g: "hasGeo laterFlowPacket" "new_flow laterFlowPacket"
    by (simp_all add: hasGeo_def laterFlowPacket_def firstPacket_def)
  show "connections strayInsertState = [newConnection 1 firstPacket]"
    by (simp add: strayInsertState_def handlePacket_def Let_def g strayState_fields)
  show "pendingNewConnections strayInsertState = [newConnection 30 laterFlowPacket]"
    by (simp add: strayInsertState_def handlePacket_def Let_def g strayState_fields)
  show "pendingConnectionUpdates strayInsertState
     = [(''1.1.1.1-10.0.0.5'', \<lparr>bytes_u = 250, packets_u = 1, lastActive_u = 20\<rparr>)]"
    by (simp add: strayInsertState_def handlePacket_def Let_def g strayState_fields)
qed

lemma pairKey_later: "pairKey ''10.0.0.5'' ''198.51.100.7'' = ''10.0.0.5-198.51.100.7''"
  by (simp add: pairKey_def sortPair_def)

lemma deltaStore_examples:
  "deltaStore strayState = [newConnection 1 firstPacket]"
  "deltaStore strayInsertState = [newConnection 30 laterFlowPacket, newConnection 1 firstPacket]"
  by (simp_all add: deltaStore_def strayState_fields strayInsertState_fields
      insertConnections_def MAX_CONNECTIONS_def)

lemma connPairKey_examples:
  "connPairKey (newConnection 1 firstPacket) = ''10.0.0.5-93.184.216.34''"
  "connPairKey (newConnection 30 laterFlowPacket) = ''10.0.0.5-198.51.100.7''"
  by (simp_all add: connPairKey_newConnection firstPacket_def laterFlowPacket_def
      pairKey_example pairKey_later)

text \<open>
  C10. The delta updater of a flush works on the store as the insert of the same flush
  has left it (\<open>deltaStore\<close>), and returns as many records as it receives: it creates
  none. A record whose pairing key has no delta is returned with every field as it was.
  A delta whose pairing key is that of no record of that list is discarded: the updater
  returns the same list with and without it, and so does the flush, record for record.
  When no pending delta has the key of a record, the flush leaves the records of that
  list as they were (as a multiset, since the updater still re-sorts the list by
  \<open>lastActive\<close>; a list that was in that order stays as it is). The packets behind
  the deltas are counted only in the running statistics, which grow by the pending
  counters.
\<close>

theorem C10_unmatched_delta_discarded:
  "connections (flushBatchedUpdates now s)
     = (if pendingConnectionUpdates s \<noteq> []
        then applyUpdates (pendingConnectionUpdates s) (deltaStore s) else deltaStore s)
   \<and> mset (connections (flushBatchedUpdates now s))
     = image_mset (applyUpdate (pendingConnectionUpdates s)) (mset (deltaStore s))
   \<and> length (applyUpdates u prev) = length prev
   \<and> length (connections (flushBatchedUpdates now s)) = length (deltaStore s)
   \<and> (map_of u (connPairKey c) = None \<longrightarrow> applyUpdate u c = c)
   \<and> ((\<forall>c \<in> set prev. connPairKey c \<noteq> k) \<longrightarrow>
        applyUpdates u prev = applyUpdates (AList.delete k u) prev)
   \<and> ((\<forall>c \<in> set (deltaStore s). connPairKey c \<noteq> k) \<longrightarrow>
        mset (connections (flushBatchedUpdates now s))
          = mset (connections (flushBatchedUpdates now
              (s\<lparr>pendingConnectionUpdates := AList.delete k (pendingConnectionUpdates s)\<rparr>))))
   \<and> ((\<forall>c \<in> set (deltaStore s). map_of (pendingConnectionUpdates s) (connPairKey c) = None) \<longrightarrow>
        mset (connections (flushBatchedUpdates now s)) = mset (deltaStore s)
        \<and> (sorted (map (\<lambda>c. - lastActive c) (deltaStore s)) \<longrightarrow>
             connections (flushBatchedUpdates now s) = deltaStore s))
   \<and> (statsPositive (pendingStats s) \<longrightarrow>
        packets_s (stats (flushBatchedUpdates now s))
          = packets_s (stats s) + packets_s (pendingStats s)
        \<and> bytes_s (stats (flushBatchedUpdates now s))
          = bytes_s (stats s) + bytes_s (pendingStats s))"
proof -
  let ?u = "pendingConnectionUpdates s"
  have l: "length (connections (flushBatchedUpdates now s)) = length (deltaStore s)"
    by (simp add: connections_flush_deltaStore length_applyUpdates)
  have r: "map_of u (connPairKey c) = None \<longrightarrow> applyUpdate u c = c"
    by (simp add: applyUpdate_no_match)
  have d: "(\<forall>c \<in> set prev. connPairKey c \<noteq> k) \<longrightarrow>
        applyUpdates u prev = applyUpdates (AList.delete k u) prev"
    by (simp add: applyUpdates_def map_applyUpdate_delete)
  have f: "mset (connections (flushBatchedUpdates now s))
          = mset (connections (flushBatchedUpdates now
              (s\<lparr>pendingConnectionUpdates := AList.delete k ?u\<rparr>)))"
    if h: "\<forall>c \<in> set (deltaStore s). connPairKey c \<noteq> k"
  proof -
    have "mset (connections (flushBatchedUpdates now
              (s\<lparr>pendingConnectionUpdates := AList.delete k ?u\<rparr>)))
          = image_mset (applyUpdate (AList.delete k ?u)) (mset (deltaStore s))"
      by (simp add: mset_flush_deltaStore deltaStore_flush_deleted)
    also have "\<dots> = mset (map (applyUpdate (AList.delete k ?u)) (deltaStore s))"
      by simp
    also have "\<dots> = mset (map (applyUpdate ?u) (deltaStore s))"
      using h by (simp only: map_applyUpdate_delete)
    also have "\<dots> = mset (connections (flushBatchedUpdates now s))"
      by (simp add: mset_flush_deltaStore)
    finally show ?thesis
      by simp
  qed
  have a: "mset (connections (flushBatchedUpdates now s)) = mset (deltaStore s)
        \<and> (sorted (map (\<lambda>c. - lastActive c) (deltaStore s)) \<longrightarrow>
             connections (flushBatchedUpdates now s) = deltaStore s)"
    if h: "\<forall>c \<in> set (deltaStore s). map_of ?u (connPairKey c) = None"
  proof -
    have i: "map (applyUpdate ?u) (deltaStore s) = deltaStore s"
      using h by (rule map_applyUpdate_no_match)
    have "mset (connections (flushBatchedUpdates now s))
            = mset (map (applyUpdate ?u) (deltaStore s))"
      by (simp add: mset_flush_deltaStore)
    then have m: "mset (connections (flushBatchedUpdates now s)) = mset (deltaStore s)"
      by (simp only: i)
    have o: "connections (flushBatchedUpdates now s) = deltaStore s"
      if "sorted (map (\<lambda>c. - lastActive c) (deltaStore s))"
      using that
      by (simp add: connections_flush_deltaStore applyUpdates_def i sortByLastActive_def
          sort_key_id_if_sorted)
    from m o show ?thesis
      by simp
  qed
  have t: "statsPositive (pendingStats s) \<longrightarrow>
        packets_s (stats (flushBatchedUpdates now s))
          = packets_s (stats s) + packets_s (pendingStats s)
        \<and> bytes_s (stats (flushBatchedUpdates now s))
          = bytes_s (stats s) + bytes_s (pendingStats s)"
    by (simp add: stats_flush)
  show ?thesis
    using connections_flush_deltaStore [of now s] mset_flush_deltaStore [of now s]
      length_applyUpdates [of u prev] l r d f a t
    by (intro conjI impI) blast+
qed

theorem C10_unmatched_delta_discarded_witness:
  "pendingConnectionUpdates strayState
     = [(''1.1.1.1-10.0.0.5'', \<lparr>bytes_u = 250, packets_u = 1, lastActive_u = 20\<rparr>)]
   \<and> connPairKey (newConnection 1 firstPacket) = ''10.0.0.5-93.184.216.34''
   \<and> deltaStore strayState = [newConnection 1 firstPacket]
   \<and> mset (connections (flushBatchedUpdates 50 strayState)) = {#newConnection 1 firstPacket#}
   \<and> length (connections (flushBatchedUpdates 50 strayState)) = 1
   \<and> connections (flushBatchedUpdates 50 strayState) = [newConnection 1 firstPacket]
   \<and> packets_s (stats (flushBatchedUpdates 50 strayState)) = 2
   \<and> bytes_s (stats (flushBatchedUpdates 50 strayState)) = 350
   \<and> pendingNewConnections strayInsertState = [newConnection 30 laterFlowPacket]
   \<and> deltaStore strayInsertState = [newConnection 30 laterFlowPacket, newConnection 1 firstPacket]
   \<and> connections (flushBatchedUpdates 50 strayInsertState)
     = [newConnection 30 laterFlowPacket, newConnection 1 firstPacket]
   \<and> mset (connections (flushBatchedUpdates 50 strayInsertState))
     = mset (connections (flushBatchedUpdates 50
         (strayInsertState\<lparr>pendingConnectionUpdates := AList.delete ''1.1.1.1-10.0.0.5''
            (pendingConnectionUpdates strayInsertState)\<rparr>)))"
proof -
  note inst = C10_unmatched_delta_discarded [where now = 50 and s = strayState]
  have h: "\<forall>c \<in> set (deltaStore strayState).
             map_of (pendingConnectionUpdates strayState) (connPairKey c) = None"
    by (simp add: deltaStore_examples strayState_fields connPairKey_examples)
  have o: "sorted (map (\<lambda>c. - lastActive c) (deltaStore strayState))"
    by (simp add: deltaStore_examples)
  have p: "statsPositive (pendingStats strayState)"
    by (simp add: strayState_fields statsPositive_def)
  from inst h o have c: "connections (flushBatchedUpdates 50 strayState) = deltaStore strayState"
    by blast
  from inst p have t: "packets_s (stats (flushBatchedUpdates 50 strayState))
          = packets_s (stats strayState) + packets_s (pendingStats strayState)
        \<and> bytes_s (stats (flushBatchedUpdates 50 strayState))
          = bytes_s (stats strayState) + bytes_s (pendingStats strayState)"
    by blast
  note inst2 = C10_unmatched_delta_discarded
    [where now = 50 and s = strayInsertState and k = "''1.1.1.1-10.0.0.5''"]
  have h2: "\<forall>c \<in> set (deltaStore strayInsertState).
             map_of (pendingConnectionUpdates strayInsertState) (connPairKey c) = None"
    by (simp add: deltaStore_examples strayInsertState_fields connPairKey_examples)
  have o2: "sorted (map (\<lambda>c. - lastActive c) (deltaStore strayInsertState))"
    by (simp add: deltaStore_examples newConnection_def)
  have k2: "\<forall>c \<in> set (deltaStore strayInsertState). connPairKey c \<noteq> ''1.1.1.1-10.0.0.5''"
    by (simp add: deltaStore_examples connPairKey_examples)
  from inst2 h2 o2
  have c2: "connections (flushBatchedUpdates 50 strayInsertState) = deltaStore strayInsertState"
    by blast
  from inst2 k2
  have d2: "mset (connections (flushBatchedUpdates 50 strayInsertState))
     = mset (connections (flushBatchedUpdates 50
         (strayInsertState\<lparr>pendingConnectionUpdates := AList.delete ''1.1.1.1-10.0.0.5''
            (pendingConnectionUpdates strayInsertState)\<rparr>)))"
    by blast
  have e: "pendingConnectionUpdates strayState
     = [(''1.1.1.1-10.0.0.5'', \<lparr>bytes_u = 250, packets_u = 1, lastActive_u = 20\<rparr>)]"
    by (rule strayState_fields(3))
  have m: "mset (connections (flushBatchedUpdates 50 strayState)) = {#newConnection 1 firstPacket#}"
    by (simp add: c deltaStore_examples)
  have l: "length (connections (flushBatchedUpdates 50 strayState)) = 1"
    by (simp add: c deltaStore_examples)
  have t1: "packets_s (stats (flushBatchedUpdates 50 strayState)) = 2"
    using t by (simp add: strayState_fields)
  have t2: "bytes_s (stats (flushBatchedUpdates 50 strayState)) = 350"
    using t by (simp add: strayState_fields)
  show ?thesis
    using e connPairKey_examples(1) deltaStore_examples m l
      c [unfolded deltaStore_examples] t1 t2 strayInsertState_fields(2)
      c2 [unfolded deltaStore_examples] d2
    by (intro conjI)
qed

subsection \<open>Selection\<close>

text \<open>
  C9, as the code has it. Selecting an arc group sets the selected key (to the group's
  key, or to nothing for no group or an empty key) and clears the direct connection id.
  Selecting a connection sets the direct connection id and leaves the selected arc-group
  key as it is: the table lists the connections of the selected group, and picking one
  of them keeps the group selected. So the two can be set at once.
\<close>

theorem C9_selection_handlers:
  "selectedArcGroupKey (handleSelectArcGroup grp s)
     = (case grp of None \<Rightarrow> None | Some g \<Rightarrow> if key g = [] then None else Some (key g))
   \<and> selectedConnectionId (handleSelectArcGroup grp s) = None
   \<and> selectedConnectionId (handleSelectConnection conn s)
     = (case conn of None \<Rightarrow> None | Some c \<Rightarrow> if id_c c = [] then None else Some (id_c c))
   \<and> selectedArcGroupKey (handleSelectConnection conn s) = selectedArcGroupKey s"
  by (simp add: handleSelectArcGroup_def handleSelectConnection_def)

theorem C9_selection_handlers_counterexample:
  "selectedArcGroupKey
     (run [SelectArcGroup (Some exampleGroup),
           SelectConnection (Some (newConnection 1 firstPacket))] exampleStore)
     = Some ''37.8,-122.4-42.1,-71.2''
   \<and> selectedConnectionId
     (run [SelectArcGroup (Some exampleGroup),
           SelectConnection (Some (newConnection 1 firstPacket))] exampleStore)
     = Some ''10.0.0.5-93.184.216.34-1''"
  by (simp add: handleSelectArcGroup_def handleSelectConnection_def exampleGroup_def
      newConnection_def firstPacket_def intToString_def natToString.simps)

subsection \<open>Messages that make the handler raise\<close>

text \<open>
  C7. The handler has no \<^verbatim>\<open>try\<close>: a text that is not JSON makes
  \<^verbatim>\<open>JSON.parse\<close> raise a SyntaxError out of \<^verbatim>\<open>ws.onmessage\<close>, the text
  \<^verbatim>\<open>null\<close> makes \<^verbatim>\<open>data.type\<close> raise a TypeError, and a
  \<^verbatim>\<open>geo_update\<close> without a \<^verbatim>\<open>geo\<close> makes \<^verbatim>\<open>geo.city\<close> raise a
  TypeError. In each case the state is what it was, but the exception does leave the
  handler.
\<close>

theorem C7_malformed_message_raises:
  "onmessage now rnd Unparsable s = Inl SyntaxError
   \<and> onmessage now rnd JsonNull s = Inl TypeError
   \<and> onmessage now rnd (GeoUpdate ip None) s = Inl TypeError
   \<and> step (Message now rnd Unparsable) s = s
   \<and> step (Message now rnd JsonNull) s = s
   \<and> step (Message now rnd (GeoUpdate ip None)) s = s"
  by simp

subsection \<open>Antipodal endpoints on the globe\<close>

lemma unit_vector_0_0: "normalize (latLonToVector3 0 0 1) = (1, 0, 0)"
  by (simp add: normalize_def latLonToVector3_def)

lemma unit_vector_0_180: "normalize (latLonToVector3 0 180 1) = (- 1, 0, 0)"
  by (simp add: normalize_def latLonToVector3_def)

lemma angleTo_opposite: "angleTo (1, 0, 0) (- 1, 0, 0) = pi"
  by (simp add: angleTo_def)

lemma pi_not_small: "\<not> pi < (0.01 :: real)"
proof -
  have "(0.01 :: real) \<le> 2" by simp
  with pi_ge_two show ?thesis by linarith
qed

lemma createArcCurve_fallback_iff:
  "(\<exists>a b c. createArcCurve msin la lo la' lo' = QuadraticBezierCurve3 a b c)
     = (arcAngle la lo la' lo' < 0.01)"
  by (simp add: createArcCurve_def arcAngle_def Let_def del: split_paired_Ex)

text \<open>
  C8. The builder takes the two-control-point curve exactly when the angle between the
  two unit vectors is below \<open>0.01\<close>. For the antipodal pair \<open>(0, 0)\<close> and
  \<open>(0, 180)\<close> that angle is \<open>\<pi>\<close>, the test \<^verbatim>\<open>angle < 0.01\<close> is false, and the builder
  returns the curve through the 33 samples of the great circle, whose quotients have
  the sine of the angle as divisor, whatever the engine's sine is. Only near-coincident
  endpoints reach the fallback; nothing tests for antipodal ones.
\<close>

theorem C8_antipodal_takes_no_fallback:
  "arcAngle 0 0 0 180 = pi
   \<and> \<not> arcAngle 0 0 0 180 < 0.01
   \<and> (\<exists>pts. createArcCurve msin 0 0 0 180 = CatmullRomCurve3 pts \<and> length pts = 33)
   \<and> (\<forall>a b c. createArcCurve msin 0 0 0 180 \<noteq> QuadraticBezierCurve3 a b c)
   \<and> ((\<exists>a b c. createArcCurve msin la lo la' lo' = QuadraticBezierCurve3 a b c)
        = (arcAngle la lo la' lo' < 0.01))"
proof -
  have a: "arcAngle 0 0 0 180 = pi"
    by (simp add: arcAngle_def unit_vector_0_0 unit_vector_0_180 angleTo_opposite)
  have g: "\<not> arcAngle 0 0 0 180 < 0.01"
    using pi_not_small by (simp add: a)
  have c: "\<exists>pts. createArcCurve msin 0 0 0 180 = CatmullRomCurve3 pts \<and> length pts = 33"
    using pi_not_small
    by (simp add: createArcCurve_def unit_vector_0_0 unit_vector_0_180 angleTo_opposite Let_def)
  then have q: "\<forall>a b c. createArcCurve msin 0 0 0 180 \<noteq> QuadraticBezierCurve3 a b c"
    by auto
  show ?thesis
    using a g c q createArcCurve_fallback_iff [of msin la lo la' lo'] by (intro conjI)
qed

subsection \<open>The capacity of the store\<close>

lemma length_insertConnections: "length (insertConnections new prev) \<le> MAX_CONNECTIONS"
  by (simp add: insertConnections_def)

lemma length_connections_flush:
  "length (connections s) \<le> MAX_CONNECTIONS \<Longrightarrow>
   length (connections (flushBatchedUpdates now s)) \<le> MAX_CONNECTIONS"
  by (simp add: connections_flush length_applyUpdates length_insertConnections)

lemma length_connections_handlePacket:
  "connections (handlePacket now rnd d s) = connections s"
  by (simp add: handlePacket_def Let_def)

lemma length_connections_onmessage:
  "onmessage now rnd m s = Inr s' \<Longrightarrow> length (connections s') = length (connections s)"
  by (induction now rnd m s rule: onmessage.induct)
     (auto simp: length_connections_handlePacket split: if_splits)

lemma length_connections_step:
  assumes "length (connections s) \<le> MAX_CONNECTIONS"
  shows "length (connections (step a s)) \<le> MAX_CONNECTIONS"
proof (cases a)
  case (Message now rnd m)
  then show ?thesis
    using assms length_connections_onmessage [of now rnd m s]
    by (cases "onmessage now rnd m s") simp_all
next
  case (Flush now)
  then show ?thesis
    using assms by (simp add: length_connections_flush)
qed (use assms in \<open>simp_all add: handleSelectConnection_def handleSelectArcGroup_def
      clearArcFilter_def lookupResult_def startCapture_def stopCapture_def clearConnections_def\<close>)

lemma length_connections_run:
  "length (connections s) \<le> MAX_CONNECTIONS \<Longrightarrow>
   length (connections (run acts s)) \<le> MAX_CONNECTIONS"
  by (induction acts arbitrary: s) (simp_all add: length_connections_step)

text \<open>New flows with a geo are only appended to the pending inserts.\<close>

lemma ingest_new_flows:
  assumes "\<forall>a \<in> set evs. new_flow (snd (snd a)) \<and> hasGeo (snd (snd a))"
  shows "connections (run (packetActions evs) s) = connections s
       \<and> pendingConnectionUpdates (run (packetActions evs) s) = pendingConnectionUpdates s
       \<and> pendingNewConnections (run (packetActions evs) s)
           = pendingNewConnections s @ map (\<lambda>a. newConnection (fst a) (snd (snd a))) evs"
  using assms
proof (induction evs arbitrary: s)
  case Nil
  then show ?case by (simp add: packetActions_def)
next
  case (Cons a evs)
  obtain now rnd d where a: "a = (now, rnd, d)" by (cases a)
  from Cons.prems a have c: "new_flow d" "hasGeo d"
    and rest: "\<forall>a \<in> set evs. new_flow (snd (snd a)) \<and> hasGeo (snd (snd a))"
    by simp_all
  have r: "run (packetActions (a # evs)) s = run (packetActions evs) (handlePacket now rnd d s)"
    by (simp add: packetActions_def a)
  have h: "connections (handlePacket now rnd d s) = connections s"
    "pendingConnectionUpdates (handlePacket now rnd d s) = pendingConnectionUpdates s"
    "pendingNewConnections (handlePacket now rnd d s) = pendingNewConnections s @ [newConnection now d]"
    using c by (simp_all add: handlePacket_def Let_def)
  show ?case
    unfolding r using Cons.IH [OF rest, of "handlePacket now rnd d s"]
    by (simp add: h a)
qed

lemma overflowStart_fields:
  "connections overflowStart = [newConnection 1 firstPacket, newConnection 2 laterFlowPacket]"
  "pendingNewConnections overflowStart = []"
  "pendingConnectionUpdates overflowStart = []"
  by (simp_all add: overflowStart_def handlePacket_def flushBatchedUpdates_def initState_def
      firstPacket_def laterFlowPacket_def hasGeo_def Let_def insertConnections_def
      MAX_CONNECTIONS_def)

lemma connections_overflowEnd:
  "connections overflowEnd
   = map (\<lambda>a. newConnection (fst a) (snd (snd a))) exampleBurst @ [newConnection 1 firstPacket]"
proof -
  have ok: "\<forall>a \<in> set exampleBurst. new_flow (snd (snd a)) \<and> hasGeo (snd (snd a))"
    by (auto simp: exampleBurst_def burstPacket_def firstPacket_def hasGeo_def)
  have len: "length exampleBurst = 999"
    by (simp add: exampleBurst_def)
  note ing = ingest_new_flows [OF ok, of overflowStart]
  have "connections overflowEnd
        = insertConnections (map (\<lambda>a. newConnection (fst a) (snd (snd a))) exampleBurst)
            [newConnection 1 firstPacket, newConnection 2 laterFlowPacket]"
    using ing len
    by (auto simp add: overflowEnd_def run_append connections_flush overflowStart_fields)
  then show ?thesis
    by (simp add: insertConnections_def MAX_CONNECTIONS_def len)
qed

text \<open>
  C2, as the code has it. In every state reached from the initial one by messages,
  flushes, patches, selections and clears the store holds at most
  \<open>MAX_CONNECTIONS = 1000\<close> records. An insert puts the pending new records, in their
  order of arrival, before the records of the store and keeps the first 1000: when the
  batch fits, all of it is kept, followed by the records at the front of the store.
  The position in the list decides what is dropped, not \<open>lastActive\<close>: the list is
  sorted by \<open>lastActive\<close> only by a flush that applies deltas, and a batch is inserted
  oldest first.
\<close>

theorem C2_capacity_and_insert:
  "length (connections (run acts initState)) \<le> MAX_CONNECTIONS
   \<and> MAX_CONNECTIONS = 1000
   \<and> (length newConnections \<le> MAX_CONNECTIONS \<longrightarrow>
        insertConnections newConnections prev
          = newConnections @ take (MAX_CONNECTIONS - length newConnections) prev)"
proof -
  have "length (connections initState) \<le> MAX_CONNECTIONS"
    by (simp add: initState_def)
  then have "length (connections (run acts initState)) \<le> MAX_CONNECTIONS"
    by (rule length_connections_run)
  then show ?thesis
    by (simp add: insertConnections_def MAX_CONNECTIONS_def)
qed

theorem C2_capacity_and_insert_witness:
  "length (connections (run (cycles exampleCycles) initState)) \<le> 1000
   \<and> length [newConnection 2 laterFlowPacket] \<le> MAX_CONNECTIONS
   \<and> insertConnections [newConnection 2 laterFlowPacket] (replicate 1000 (newConnection 1 firstPacket))
     = newConnection 2 laterFlowPacket # replicate 999 (newConnection 1 firstPacket)"
  using C2_capacity_and_insert [of "cycles exampleCycles" "[newConnection 2 laterFlowPacket]"
      "replicate 1000 (newConnection 1 firstPacket)"]
  by (simp add: MAX_CONNECTIONS_def)

theorem C2_capacity_and_insert_counterexample:
  "connections overflowStart = [newConnection 1 firstPacket, newConnection 2 laterFlowPacket]
   \<and> lastActive (newConnection 1 firstPacket) = 1
   \<and> lastActive (newConnection 2 laterFlowPacket) = 2
   \<and> length (connections overflowEnd) = 1000
   \<and> newConnection 1 firstPacket \<in> set (connections overflowEnd)
   \<and> newConnection 2 laterFlowPacket \<notin> set (connections overflowEnd)"
proof -
  have "newConnection 2 laterFlowPacket \<notin> set (connections overflowEnd)"
    by (auto simp: connections_overflowEnd exampleBurst_def newConnection_def
        laterFlowPacket_def firstPacket_def)
  then show ?thesis
    by (simp add: connections_overflowEnd overflowStart_fields)
       (simp add: exampleBurst_def newConnection_def)
qed

subsection \<open>The packet event window\<close>

lemma packetEvents_flush:
  "packetEvents (flushBatchedUpdates now s)
   = flushPacketEvents (now - PACKET_EVENT_TTL_MS) (pendingPacketEvents s) (packetEvents s)"
  by (simp add: flushBatchedUpdates_def Let_def)

lemma set_sliceLast: "set (sliceLast n xs) \<subseteq> set xs"
  by (simp add: sliceLast_def set_drop_subset)

lemma length_sliceLast: "length (sliceLast n xs) \<le> n"
  by (simp add: sliceLast_def)

lemma flushPacketEvents_no_new:
  "flushPacketEvents cutoff [] prev = filter (\<lambda>e. timestamp_e e > cutoff) prev"
proof -
  have "length (filter (\<lambda>e. timestamp_e e > cutoff) prev) = length prev \<Longrightarrow>
        filter (\<lambda>e. timestamp_e e > cutoff) prev = prev"
    by (metis filter_True length_filter_less linorder_neq_iff)
  then show ?thesis
    by (auto simp: flushPacketEvents_def Let_def)
qed

lemma set_flushPacketEvents:
  "set (flushPacketEvents cutoff new prev) \<subseteq> {e \<in> set prev. timestamp_e e > cutoff} \<union> set new"
proof (cases "new = []")
  case True
  then show ?thesis by (simp add: flushPacketEvents_no_new)
next
  case False
  then show ?thesis
    using set_sliceLast [of MAX_PACKET_EVENTS "filter (\<lambda>e. timestamp_e e > cutoff) prev @ new"]
    by (auto simp: flushPacketEvents_def)
qed

lemma length_flushPacketEvents:
  "length prev \<le> MAX_PACKET_EVENTS \<Longrightarrow>
   length (flushPacketEvents cutoff new prev) \<le> MAX_PACKET_EVENTS"
proof (cases "new = []")
  case True
  assume "length prev \<le> MAX_PACKET_EVENTS"
  moreover have "length (filter (\<lambda>e. timestamp_e e > cutoff) prev) \<le> length prev"
    by (rule length_filter_le)
  ultimately have "length (filter (\<lambda>e. timestamp_e e > cutoff) prev) \<le> MAX_PACKET_EVENTS"
    by (rule le_trans [rotated])
  then show ?thesis
    using True by (simp add: flushPacketEvents_no_new)
next
  case False
  then show ?thesis
    by (simp add: flushPacketEvents_def length_sliceLast)
qed

lemma packetEvents_handlePacket: "packetEvents (handlePacket now rnd d s) = packetEvents s"
  by (simp add: handlePacket_def Let_def)

lemma packetEvents_onmessage:
  "onmessage now rnd m s = Inr s' \<Longrightarrow> packetEvents s' = packetEvents s"
  by (induction now rnd m s rule: onmessage.induct)
     (auto simp: packetEvents_handlePacket split: if_splits)

lemma length_packetEvents_step:
  assumes "length (packetEvents s) \<le> MAX_PACKET_EVENTS"
  shows "length (packetEvents (step a s)) \<le> MAX_PACKET_EVENTS"
proof (cases a)
  case (Message now rnd m)
  then show ?thesis
    using assms packetEvents_onmessage [of now rnd m s]
    by (cases "onmessage now rnd m s") simp_all
next
  case (Flush now)
  then show ?thesis
    using assms by (simp add: packetEvents_flush length_flushPacketEvents)
qed (use assms in \<open>simp_all add: handleSelectConnection_def handleSelectArcGroup_def
      clearArcFilter_def lookupResult_def startCapture_def stopCapture_def clearConnections_def\<close>)

lemma length_packetEvents_run:
  "length (packetEvents s) \<le> MAX_PACKET_EVENTS \<Longrightarrow>
   length (packetEvents (run acts s)) \<le> MAX_PACKET_EVENTS"
  by (induction acts arbitrary: s) (simp_all add: length_packetEvents_step)

lemma pendingPacketEvents_handlePacket:
  "pendingPacketEvents (handlePacket now rnd d s)
   = (if hasGeo d then pendingPacketEvents s @ [newPacketEvent now rnd d]
      else pendingPacketEvents s)"
  by (simp add: handlePacket_def Let_def)

lemma timestamp_newPacketEvent: "timestamp_e (newPacketEvent now rnd d) = now"
  by (simp add: newPacketEvent_def Let_def)

lemma hasGeo_examples: "hasGeo firstPacket" "hasGeo secondPacket"
  by (simp_all add: hasGeo_def firstPacket_def secondPacket_def)

lemma windowState_fields:
  "packetEvents windowState
     = [newPacketEvent 0 ''0.25'' firstPacket, newPacketEvent 1500 ''0.5'' secondPacket]"
  "pendingPacketEvents windowState = []"
proof -
  have i: "packetEvents initState = []" "pendingPacketEvents initState = []"
    by (simp_all add: initState_def)
  show "packetEvents windowState
     = [newPacketEvent 0 ''0.25'' firstPacket, newPacketEvent 1500 ''0.5'' secondPacket]"
    by (simp add: windowState_def packetEvents_flush pending_after_flush
        pendingPacketEvents_handlePacket packetEvents_handlePacket hasGeo_examples i
        flushPacketEvents_def sliceLast_def timestamp_newPacketEvent PACKET_EVENT_TTL_MS_def
        MAX_PACKET_EVENTS_def)
  show "pendingPacketEvents windowState = []"
    by (simp add: windowState_def pending_after_flush)
qed

lemma sliceLast_fits: "length xs \<le> n \<Longrightarrow> sliceLast n xs = xs"
  by (simp add: sliceLast_def)

lemma windowPending_fields:
  "packetEvents windowPending
     = [newPacketEvent 0 ''0.25'' firstPacket, newPacketEvent 1500 ''0.5'' secondPacket]"
  "pendingPacketEvents windowPending = [newPacketEvent 2000 ''0.125'' replyPacket]"
proof -
  have g: "hasGeo replyPacket"
    by (simp add: hasGeo_def replyPacket_def)
  show "packetEvents windowPending
     = [newPacketEvent 0 ''0.25'' firstPacket, newPacketEvent 1500 ''0.5'' secondPacket]"
    by (simp add: windowPending_def packetEvents_handlePacket windowState_fields)
  show "pendingPacketEvents windowPending = [newPacketEvent 2000 ''0.125'' replyPacket]"
    by (simp add: windowPending_def pendingPacketEvents_handlePacket windowState_fields g)
qed

text \<open>
  C6, as the code has it. A flush at time \<open>now\<close> keeps, of the events that were in the
  window, only those with \<open>timestamp > now - 2000\<close>; it does so on every flush, and
  with nothing pending the new window is exactly that filter of the old one. With
  events pending, the new window is the last 300 of the filtered old window followed by
  the pending events: these are appended as they are, whatever their age (their
  timestamps are the times their messages arrived, and the flush compares them with
  nothing), and all of them are there when the two lists together have at most 300
  events. In every reachable state the window holds at most 300 events.
\<close>

theorem C6_window_pruned_and_capped:
  "(\<forall>e \<in> set (packetEvents (flushBatchedUpdates now s)).
      (e \<in> set (packetEvents s) \<and> now - PACKET_EVENT_TTL_MS < timestamp_e e)
      \<or> e \<in> set (pendingPacketEvents s))
   \<and> (pendingPacketEvents s = [] \<longrightarrow>
        packetEvents (flushBatchedUpdates now s)
          = filter (\<lambda>e. now - PACKET_EVENT_TTL_MS < timestamp_e e) (packetEvents s))
   \<and> (pendingPacketEvents s \<noteq> [] \<longrightarrow>
        packetEvents (flushBatchedUpdates now s)
          = sliceLast MAX_PACKET_EVENTS
              (filter (\<lambda>e. now - PACKET_EVENT_TTL_MS < timestamp_e e) (packetEvents s)
               @ pendingPacketEvents s))
   \<and> (length (filter (\<lambda>e. now - PACKET_EVENT_TTL_MS < timestamp_e e) (packetEvents s))
        + length (pendingPacketEvents s) \<le> MAX_PACKET_EVENTS \<longrightarrow>
        packetEvents (flushBatchedUpdates now s)
          = filter (\<lambda>e. now - PACKET_EVENT_TTL_MS < timestamp_e e) (packetEvents s)
            @ pendingPacketEvents s)
   \<and> length (packetEvents (run acts initState)) \<le> MAX_PACKET_EVENTS
   \<and> PACKET_EVENT_TTL_MS = 2000 \<and> MAX_PACKET_EVENTS = 300"
proof -
  let ?old = "filter (\<lambda>e. now - PACKET_EVENT_TTL_MS < timestamp_e e) (packetEvents s)"
  have a: "\<forall>e \<in> set (packetEvents (flushBatchedUpdates now s)).
             (e \<in> set (packetEvents s) \<and> now - PACKET_EVENT_TTL_MS < timestamp_e e)
             \<or> e \<in> set (pendingPacketEvents s)"
    using set_flushPacketEvents
      [of "now - PACKET_EVENT_TTL_MS" "pendingPacketEvents s" "packetEvents s"]
    by (auto simp: packetEvents_flush)
  have n: "pendingPacketEvents s = [] \<longrightarrow> packetEvents (flushBatchedUpdates now s) = ?old"
    by (simp add: packetEvents_flush flushPacketEvents_no_new)
  have p: "pendingPacketEvents s \<noteq> [] \<longrightarrow>
        packetEvents (flushBatchedUpdates now s)
          = sliceLast MAX_PACKET_EVENTS (?old @ pendingPacketEvents s)"
    by (simp add: packetEvents_flush flushPacketEvents_def)
  have f: "length ?old + length (pendingPacketEvents s) \<le> MAX_PACKET_EVENTS \<longrightarrow>
        packetEvents (flushBatchedUpdates now s) = ?old @ pendingPacketEvents s"
  proof (cases "pendingPacketEvents s = []")
    case True
    with n show ?thesis by simp
  next
    case False
    with p show ?thesis by (simp add: sliceLast_fits)
  qed
  have "length (packetEvents initState) \<le> MAX_PACKET_EVENTS"
    by (simp add: initState_def)
  then have c: "length (packetEvents (run acts initState)) \<le> MAX_PACKET_EVENTS"
    by (rule length_packetEvents_run)
  have k: "PACKET_EVENT_TTL_MS = 2000" "MAX_PACKET_EVENTS = 300"
    by (simp_all add: PACKET_EVENT_TTL_MS_def MAX_PACKET_EVENTS_def)
  show ?thesis
    using a n p f c k by (intro conjI)
qed

theorem C6_window_pruned_and_capped_witness:
  "packetEvents windowState
     = [newPacketEvent 0 ''0.25'' firstPacket, newPacketEvent 1500 ''0.5'' secondPacket]
   \<and> pendingPacketEvents windowState = []
   \<and> packetEvents (flushBatchedUpdates 2005 windowState)
     = [newPacketEvent 1500 ''0.5'' secondPacket]
   \<and> pendingPacketEvents windowPending = [newPacketEvent 2000 ''0.125'' replyPacket]
   \<and> packetEvents (flushBatchedUpdates 2005 windowPending)
     = [newPacketEvent 1500 ''0.5'' secondPacket, newPacketEvent 2000 ''0.125'' replyPacket]
   \<and> length (packetEvents (run (cycles exampleCycles) initState)) \<le> 300"
proof -
  note inst = C6_window_pruned_and_capped [of 2005 windowState "cycles exampleCycles"]
  from inst have "pendingPacketEvents windowState = [] \<longrightarrow>
        packetEvents (flushBatchedUpdates 2005 windowState)
          = filter (\<lambda>e. 2005 - PACKET_EVENT_TTL_MS < timestamp_e e) (packetEvents windowState)"
    by (elim conjE)
  then have a: "packetEvents (flushBatchedUpdates 2005 windowState)
                = [newPacketEvent 1500 ''0.5'' secondPacket]"
    by (simp add: windowState_fields timestamp_newPacketEvent PACKET_EVENT_TTL_MS_def)
  from inst have b: "length (packetEvents (run (cycles exampleCycles) initState)) \<le> 300"
    by (elim conjE) (simp only:)
  note inst2 = C6_window_pruned_and_capped [of 2005 windowPending "[]"]
  from inst2 have "pendingPacketEvents windowPending \<noteq> [] \<longrightarrow>
        packetEvents (flushBatchedUpdates 2005 windowPending)
          = sliceLast MAX_PACKET_EVENTS
              (filter (\<lambda>e. 2005 - PACKET_EVENT_TTL_MS < timestamp_e e) (packetEvents windowPending)
               @ pendingPacketEvents windowPending)"
    by (elim conjE)
  then have c: "packetEvents (flushBatchedUpdates 2005 windowPending)
     = [newPacketEvent 1500 ''0.5'' secondPacket, newPacketEvent 2000 ''0.125'' replyPacket]"
    by (simp add: windowPending_fields timestamp_newPacketEvent PACKET_EVENT_TTL_MS_def
        sliceLast_def MAX_PACKET_EVENTS_def)
  show ?thesis
    using a b c windowState_fields windowPending_fields(2) by (intro conjI)
qed

theorem C6_window_pruned_and_capped_counterexample:
  "packetEvents lateFlush = [newPacketEvent 0 ''0.25'' firstPacket]
   \<and> timestamp_e (newPacketEvent 0 ''0.25'' firstPacket) = 0
   \<and> PACKET_EVENT_TTL_MS < 5000 - timestamp_e (newPacketEvent 0 ''0.25'' firstPacket)"
proof -
  have "packetEvents lateFlush
        = flushPacketEvents (5000 - PACKET_EVENT_TTL_MS) [newPacketEvent 0 ''0.25'' firstPacket] []"
    by (simp add: lateFlush_def packetEvents_flush pendingPacketEvents_handlePacket
        packetEvents_handlePacket hasGeo_examples initState_def)
  then have "packetEvents lateFlush = [newPacketEvent 0 ''0.25'' firstPacket]"
    by (simp add: flushPacketEvents_def sliceLast_def MAX_PACKET_EVENTS_def)
  then show ?thesis
    by (simp add: timestamp_newPacketEvent PACKET_EVENT_TTL_MS_def)
qed

subsection \<open>Arc groups: who is a member\<close>


lemma coordKey_Inr: "coordKey g = Inr k \<Longrightarrow> \<not> nullish (lat g) \<and> \<not> nullish (lon g)"
  by (simp add: coordKey_def nullish_def split: coord.splits)

lemma coordKey_Inl: "coordKey g = Inl e \<Longrightarrow> e = TypeError"
  by (simp add: coordKey_def split: coord.splits)

lemma coordKey_returns: "\<not> nullish (lat g) \<Longrightarrow> \<not> nullish (lon g) \<Longrightarrow> \<exists>k. coordKey g = Inr k"
  by (simp add: coordKey_def nullish_def split: coord.splits)

text \<open>What one pass of either loop body can do to the groups.\<close>

lemma arcStep_cases:
  assumes "arcStep home c gs = Inr gs'"
  shows "gs' = gs
       \<or> (\<not> arcExcluded home c \<and> (\<exists>fresh. connections_g fresh = [] \<and> gs' = accumulate fresh c gs))"
proof (cases "orElse (src_geo c) home")
  case None
  with assms show ?thesis by (simp add: arcStep_def)
next
  case sg: (Some sg)
  show ?thesis
  proof (cases "orElse (dst_geo c) home")
    case None
    with assms sg show ?thesis by (simp add: arcStep_def)
  next
    case dg: (Some dg)
    show ?thesis
    proof (cases "pending sg \<or> pending dg \<or> nullish (lat sg) \<or> nullish (lat dg)")
      case True
      with assms sg dg have "gs' = gs" by (auto simp: arcStep_def split: if_splits)
      then show ?thesis by simp
    next
      case False
      with assms sg dg obtain a b where ab: "coordKey sg = Inr a" "coordKey dg = Inr b"
        and g: "gs' = accumulate
                  \<lparr>key = joinDash (sortPair a b), srcGeo = Some sg, dstGeo = Some dg,
                   process_g = None, connections_g = [], totalBytes = 0, totalPackets = 0\<rparr> c gs"
        by (auto simp: arcStep_def split: sum.splits)
      from False coordKey_Inr [OF ab(1)] coordKey_Inr [OF ab(2)]
      have n: "\<not> arcExcluded home c"
        by (simp add: arcExcluded_def noCoordinates_def sg dg)
      from g have "\<exists>fresh. connections_g fresh = [] \<and> gs' = accumulate fresh c gs"
        by (intro exI [of _ "\<lparr>key = joinDash (sortPair a b), srcGeo = Some sg, dstGeo = Some dg,
              process_g = None, connections_g = [], totalBytes = 0, totalPackets = 0\<rparr>"]) simp
      with n show ?thesis by blast
    qed
  qed
qed







lemma coordKey_examples:
  "coordKey exampleHome = Inr ''37.8,-122.4''" "coordKey exampleGeo = Inr ''42.1,-71.2''"
  by (simp_all add: coordKey_def exampleHome_def exampleGeo_def toFixed1_def natToString.simps)

lemma key_example: "joinDash (sortPair ''37.8,-122.4'' ''42.1,-71.2'') = ''37.8,-122.4-42.1,-71.2''"
  by (simp add: sortPair_def)

lemma geo_fields:
  "pending exampleHome = False" "pending exampleGeo = False" "nullish (lat exampleHome) = False"
  "nullish (lat exampleGeo) = False" "pending pendingGeo = True"
  "pending lonlessGeo = False" "nullish (lat lonlessGeo) = False" "nullish (lon lonlessGeo) = True"
  by (simp_all add: exampleHome_def exampleGeo_def pendingGeo_def lonlessGeo_def nullish_def)

lemma conn_geos:
  "src_geo (newConnection 1 firstPacket) = None"
  "dst_geo (newConnection 1 firstPacket) = Some exampleGeo"
  "src_geo pendingConn = None" "dst_geo pendingConn = Some pendingGeo"
  "process (newConnection 1 firstPacket) = None"
  "bytes (newConnection 1 firstPacket) = 100" "packets (newConnection 1 firstPacket) = 1"
  "src_geo lonlessConn = Some lonlessGeo" "dst_geo lonlessConn = Some exampleGeo"
  "process lonlessConn = None" "bytes lonlessConn = 100" "packets lonlessConn = 1"
  by (simp_all add: newConnection_def firstPacket_def pendingConn_def lonlessConn_def lengthOr0_def)



text \<open>
  The location-mode aggregation returns when every geo it reads is well formed, and
  raises on a connection that passes its tests with a longitude missing.
\<close>

lemma arcStep_returns:
  assumes "wellFormedGeo (orElse (src_geo c) home)" "wellFormedGeo (orElse (dst_geo c) home)"
  shows "\<exists>gs'. arcStep home c gs = Inr gs'"
proof (cases "orElse (src_geo c) home")
  case None
  then show ?thesis by (simp add: arcStep_def)
next
  case sg: (Some sg)
  show ?thesis
  proof (cases "orElse (dst_geo c) home")
    case None
    with sg show ?thesis by (simp add: arcStep_def)
  next
    case dg: (Some dg)
    show ?thesis
    proof (cases "pending sg \<or> pending dg \<or> nullish (lat sg) \<or> nullish (lat dg)")
      case True
      with sg dg show ?thesis by (auto simp: arcStep_def)
    next
      case False
      with assms sg dg have "\<not> nullish (lat sg)" "\<not> nullish (lon sg)"
        "\<not> nullish (lat dg)" "\<not> nullish (lon dg)"
        by (simp_all add: wellFormedGeo_def)
      then obtain a b where "coordKey sg = Inr a" "coordKey dg = Inr b"
        using coordKey_returns by blast
      with False sg dg show ?thesis by (simp add: arcStep_def)
    qed
  qed
qed

lemma forEachConn_returns:
  assumes "\<And>c gs. c \<in> set conns \<Longrightarrow> \<exists>gs'. body c gs = Inr gs'"
  shows "\<exists>gs'. forEachConn body conns gs = Inr gs'"
  using assms
proof (induction conns arbitrary: gs)
  case Nil
  then show ?case by simp
next
  case (Cons c conns)
  from Cons.prems [of c gs] obtain g1 where s: "body c gs = Inr g1"
    by auto
  from Cons.IH [of g1] Cons.prems show ?case
    by (simp add: s)
qed

lemma arcGroups_returns:
  assumes "\<forall>c \<in> set conns. wellFormedGeo (orElse (src_geo c) home)
                         \<and> wellFormedGeo (orElse (dst_geo c) home)"
  shows "\<exists>gs. arcGroups conns home = Inr gs"
  unfolding arcGroups_def
  by (rule forEachConn_returns) (use assms arcStep_returns in blast)

lemma arcStep_raises:
  assumes "orElse (src_geo c) home = Some sg" "orElse (dst_geo c) home = Some dg"
    and "\<not> pending sg" "\<not> pending dg" "\<not> nullish (lat sg)" "\<not> nullish (lat dg)"
    and "nullish (lon sg) \<or> nullish (lon dg)"
  shows "arcStep home c gs = Inl TypeError"
proof (cases "arcStep home c gs")
  case (Inl e)
  with assms have "e = TypeError"
    by (auto simp: arcStep_def split: sum.splits dest: coordKey_Inl)
  with Inl show ?thesis by simp
next
  case (Inr gs')
  from arcStep_cases [OF Inr] assms have "gs' = gs"
    by (auto simp: arcExcluded_def noCoordinates_def)
  with Inr assms show ?thesis
    by (auto simp: arcStep_def split: sum.splits dest: coordKey_Inr)
qed







subsection \<open>Arc groups: symmetry of the location mode\<close>

lemma sortPair_commute: "sortPair a b = sortPair b a"
  by (auto simp: sortPair_def)

lemma summary_pushConn:
  "summary (pushConn c g)
   = (key g, totalBytes g + bytes c, totalPackets g + packets c, Suc (length (connections_g g)))"
  by (simp add: summary_def pushConn_def)

lemma summary_pushConn_cong:
  assumes "summary g = summary g'" "bytes c = bytes c'" "packets c = packets c'"
  shows "summary (pushConn c g) = summary (pushConn c' g')"
proof -
  from assms(1) have "key g = key g'" "totalBytes g = totalBytes g'"
    "totalPackets g = totalPackets g'" "length (connections_g g) = length (connections_g g')"
    by (simp_all add: summary_def)
  then show ?thesis
    unfolding summary_pushConn using assms(2,3) by simp
qed

lemma summary_accumulate:
  assumes fr: "summary fresh = summary fresh'" and bt: "bytes c = bytes c'"
    and pk: "packets c = packets c'"
    and gs: "map summary gs = map summary gs'"
  shows "map summary (accumulate fresh c gs) = map summary (accumulate fresh' c' gs')"
  using gs
proof (induction gs arbitrary: gs')
  case Nil
  then have "gs' = []" by simp
  then show ?case
    using summary_pushConn_cong [OF fr bt pk] by simp
next
  case (Cons g gs)
  then obtain g' gs'' where gs': "gs' = g' # gs''" and g: "summary g = summary g'"
    and rest: "map summary gs = map summary gs''"
    by (cases gs') auto
  have k: "key g = key g'" "key fresh = key fresh'"
    using g fr by (simp_all add: summary_def)
  show ?case
  proof (cases "key g = key fresh")
    case True
    then show ?thesis
      using summary_pushConn_cong [OF g bt pk] rest k by (simp add: gs')
  next
    case False
    then show ?thesis
      using Cons.IH [OF rest] g k by (simp add: gs')
  qed
qed

lemma swapEnds_fields:
  "src_geo (swapEnds c) = dst_geo c" "dst_geo (swapEnds c) = src_geo c"
  "bytes (swapEnds c) = bytes c" "packets (swapEnds c) = packets c"
  by (simp_all add: swapEnds_def)

lemma arcStep_Some:
  assumes "orElse (src_geo c) home = Some sg" "orElse (dst_geo c) home = Some dg"
  shows "arcStep home c gs =
     (if pending sg \<or> pending dg then Inr gs
      else if nullish (lat sg) \<or> nullish (lat dg) then Inr gs
      else (case coordKey sg of
              Inl e \<Rightarrow> Inl e
            | Inr srcKey \<Rightarrow>
                (case coordKey dg of
                   Inl e \<Rightarrow> Inl e
                 | Inr dstKey \<Rightarrow>
                     Inr (accumulate
                            \<lparr>key = joinDash (sortPair srcKey dstKey),
                             srcGeo = Some sg, dstGeo = Some dg, process_g = None,
                             connections_g = [], totalBytes = 0, totalPackets = 0\<rparr>
                            c gs))))"
  by (simp add: arcStep_def assms)

lemma arcStep_None:
  "orElse (src_geo c) home = None \<or> orElse (dst_geo c) home = None \<Longrightarrow> arcStep home c gs = Inr gs"
  by (auto simp: arcStep_def split: option.splits)

lemma arcStep_swap:
  assumes "map summary gs = map summary gs'"
  shows "map_sum id (map summary) (arcStep home (swapEnds c) gs')
         = map_sum id (map summary) (arcStep home c gs)"
proof (cases "orElse (src_geo c) home = None \<or> orElse (dst_geo c) home = None")
  case True
  then have "orElse (src_geo (swapEnds c)) home = None \<or> orElse (dst_geo (swapEnds c)) home = None"
    by (auto simp: swapEnds_fields)
  then show ?thesis
    using True assms by (simp add: arcStep_None)
next
  case False
  then obtain sg dg where sg: "orElse (src_geo c) home = Some sg"
    and dg: "orElse (dst_geo c) home = Some dg"
    by auto
  have sw: "orElse (src_geo (swapEnds c)) home = Some dg" "orElse (dst_geo (swapEnds c)) home = Some sg"
    by (simp_all add: swapEnds_fields sg dg)
  note l = arcStep_Some [OF sg dg, of gs]
  note r = arcStep_Some [OF sw, of gs']
  show ?thesis
  proof (cases "pending sg \<or> pending dg \<or> nullish (lat sg) \<or> nullish (lat dg)")
    case True
    then show ?thesis
      unfolding l r using assms by auto
  next
    case ok: False
    show ?thesis
    proof (cases "coordKey sg")
      case (Inl e)
      then have e: "e = TypeError" by (rule coordKey_Inl)
      show ?thesis
        unfolding l r using ok Inl e
        by (cases "coordKey dg") (auto dest: coordKey_Inl)
    next
      case (Inr a)
      show ?thesis
      proof (cases "coordKey dg")
        case (Inl e)
        then show ?thesis
          unfolding l r using ok Inr by (auto dest: coordKey_Inl)
      next
        case (Inr b)
        have acc: "map summary (accumulate
                \<lparr>key = joinDash (sortPair b a), srcGeo = Some dg, dstGeo = Some sg, process_g = None,
                 connections_g = [], totalBytes = 0, totalPackets = 0\<rparr> (swapEnds c) gs')
             = map summary (accumulate
                \<lparr>key = joinDash (sortPair a b), srcGeo = Some sg, dstGeo = Some dg, process_g = None,
                 connections_g = [], totalBytes = 0, totalPackets = 0\<rparr> c gs)"
          by (rule summary_accumulate)
             (simp_all add: summary_def sortPair_commute [of a b] swapEnds_fields assms)
        show ?thesis
        proof -
          from ok have n: "\<not> pending sg" "\<not> pending dg"
            by simp_all
          from ok have xy: "\<not> nullish (lat sg)" "\<not> nullish (lat dg)"
            by simp_all
          show ?thesis
            unfolding l r using n xy Inr \<open>coordKey sg = Inr a\<close> acc by simp
        qed
      qed
    qed
  qed
qed

lemma forEach_swap:
  assumes "map summary gs = map summary gs'"
  shows "map_sum id (map summary) (forEachConn (arcStep home) (map swapEnds conns) gs')
         = map_sum id (map summary) (forEachConn (arcStep home) conns gs)"
  using assms
proof (induction conns arbitrary: gs gs')
  case Nil
  then show ?case by simp
next
  case (Cons c conns)
  note st = arcStep_swap [OF Cons.prems, of home c]
  show ?case
  proof (cases "arcStep home c gs")
    case (Inl e)
    with st obtain e' where "arcStep home (swapEnds c) gs' = Inl e'" "e' = e"
      by (cases "arcStep home (swapEnds c) gs'") auto
    with Inl show ?thesis by simp
  next
    case (Inr g1)
    with st obtain g1' where s: "arcStep home (swapEnds c) gs' = Inr g1'"
      and r: "map summary g1 = map summary g1'"
      by (cases "arcStep home (swapEnds c) gs'") auto
    show ?thesis
      using Cons.IH [OF r] by (simp add: Inr s)
  qed
qed

lemma replyConn_fields:
  "src_geo replyConn = Some exampleGeo" "dst_geo replyConn = None"
  "bytes replyConn = 30" "packets replyConn = 1"
  by (simp_all add: replyConn_def newConnection_def replyPacket_def secondPacket_def
      firstPacket_def lengthOr0_def)

lemma arcGroups_two_directions:
  "map_sum id (map summary) (arcGroups [newConnection 1 firstPacket, replyConn] (Some exampleHome))
   = Inr [(''37.8,-122.4-42.1,-71.2'', 130, 2, 2)]"
  by (simp add: arcGroups_def arcStep_def orElse_def conn_geos replyConn_fields geo_fields
      coordKey_examples key_example sortPair_commute [of "''42.1,-71.2''" "''37.8,-122.4''"]
      pushConn_def summary_def)

text \<open>
  C4. Location-mode aggregation of the store with every connection replaced by its
  swapped counterpart gives, group by group and in the same order, the same key, the same
  \<open>totalBytes\<close> and \<open>totalPackets\<close> and the same number of members as the
  aggregation of the store itself; and it raises exactly when that one does. Equal lists
  of summaries are in particular equal sets of keys with equal sums per key.
\<close>

theorem C4_location_groups_symmetric:
  "map_sum id (map summary) (arcGroups (map swapEnds conns) home)
   = map_sum id (map summary) (arcGroups conns home)"
  by (simp add: arcGroups_def forEach_swap)

theorem C4_location_groups_symmetric_witness:
  "map_sum id (map summary)
     (arcGroups (map swapEnds [newConnection 1 firstPacket, replyConn]) (Some exampleHome))
   = Inr [(''37.8,-122.4-42.1,-71.2'', 130, 2, 2)]"
  using C4_location_groups_symmetric [of "[newConnection 1 firstPacket, replyConn]" "Some exampleHome"]
  by (simp only: arcGroups_two_directions)

subsection \<open>Planar hit testing\<close>

lemma hitTest_find: "hitTest mx my w h z p gs = find (groupHit mx my w h z p) gs"
  by (induction gs) simp_all






lemma numSamples_bounds: "20 \<le> numSamples d" "numSamples d \<le> 100"
  by (simp_all add: numSamples_def)

lemma arcLoop_sample:
  "arcLoop t stp mx my src mid dst r \<Longrightarrow>
   \<exists>k::nat. t + real k * stp \<le> 1 \<and> dist2d mx my (arcPoint (t + real k * stp) src mid dst) < r"
proof (induction t stp mx my src mid dst r rule: arcLoop.induct)
  case (1 t stp mx my src mid dst r)
  from "1.prems" have c: "0 < stp" "t \<le> 1"
    by (subst (asm) arcLoop.simps, simp split: if_splits)+
  show ?case
  proof (cases "dist2d mx my (arcPoint t src mid dst) < r")
    case True
    with c have "t + real 0 * stp \<le> 1 \<and> dist2d mx my (arcPoint (t + real 0 * stp) src mid dst) < r"
      by simp
    then show ?thesis by blast
  next
    case False
    with "1.prems" c have "arcLoop (t + stp) stp mx my src mid dst r"
      by (subst (asm) arcLoop.simps) simp
    from "1.IH" [OF _ False this] c obtain k :: nat
      where "t + stp + real k * stp \<le> 1"
        "dist2d mx my (arcPoint (t + stp + real k * stp) src mid dst) < r"
      by auto
    then have "t + real (Suc k) * stp \<le> 1 \<and> dist2d mx my (arcPoint (t + real (Suc k) * stp) src mid dst) < r"
      by (simp add: algebra_simps)
    then show ?thesis by blast
  qed
qed

lemma arcHit_sample:
  assumes "arcHit mx my a b r"
  shows "\<exists>k::nat. int k \<le> numSamples (screenDistOf a b)
           \<and> dist2d mx my (arcPoint (real k / real_of_int (numSamples (screenDistOf a b))) a (controlPoint a b) b) < r"
proof -
  let ?n = "numSamples (screenDistOf a b)"
  have n: "0 < real_of_int ?n"
    using numSamples_bounds(1) [of "screenDistOf a b"] by simp
  from assms have "arcLoop 0 (1 / real_of_int ?n) mx my a (controlPoint a b) b r"
    by (simp add: arcHit_def Let_def screenDistOf_def controlPoint_def)
  from arcLoop_sample [OF this] obtain k :: nat
    where k: "real k * (1 / real_of_int ?n) \<le> 1"
      and d: "dist2d mx my (arcPoint (real k * (1 / real_of_int ?n)) a (controlPoint a b) b) < r"
    by auto
  from k n have "real k \<le> real_of_int ?n"
    by (simp add: field_simps)
  then have "int k \<le> ?n" by linarith
  with d show ?thesis by auto
qed

lemma far_not_hit:
  assumes "farFromGroup mx my w h z p g"
  shows "\<not> groupHit mx my w h z p g"
proof
  assume hit: "groupHit mx my w h z p g"
  then obtain sg dg where g: "srcGeo g = Some sg" "dstGeo g = Some dg"
    by (auto simp: groupHit_def split: option.splits)
  note far = assms [unfolded farFromGroup_def, rule_format, OF conjI [OF g]]
  have n1: "\<not> nodeNear mx my (geoXY sg w h z p) (nodeHitRadius z)"
    using far by (cases "geoXY sg w h z p") (auto simp: nodeNear_def not_less)
  have n2: "\<not> nodeNear mx my (geoXY dg w h z p) (nodeHitRadius z)"
    using far by (cases "geoXY dg w h z p") (auto simp: nodeNear_def not_less)
  from hit g n1 n2 obtain a b where ab: "geoXY sg w h z p = Some a" "geoXY dg w h z p = Some b"
    and ah: "arcHit mx my a b (hitRadius z)"
    by (auto simp: groupHit_def Let_def split: option.splits)
  from arcHit_sample [OF ah] obtain k :: nat where k: "int k \<le> numSamples (screenDistOf a b)"
    and d: "dist2d mx my (arcPoint (real k / real_of_int (numSamples (screenDistOf a b))) a (controlPoint a b) b) < hitRadius z"
    by auto
  from far ab have "\<forall>k::nat. int k \<le> numSamples (screenDistOf a b) \<longrightarrow>
      hitRadius z \<le> dist2d mx my
        (arcPoint (real k / real_of_int (numSamples (screenDistOf a b))) a (controlPoint a b) b)"
    by blast
  with k have "hitRadius z \<le> dist2d mx my
        (arcPoint (real k / real_of_int (numSamples (screenDistOf a b))) a (controlPoint a b) b)"
    by blast
  with d show False
    by linarith
qed

lemma hitTest_far:
  assumes "\<forall>g \<in> set gs. farFromGroup mx my w h z p g"
  shows "hitTest mx my w h z p gs = None"
  using assms by (auto simp: hitTest_find find_None_iff dest: far_not_hit)



















end
